theory Spec2Isabelle
  imports Main "HOL-Library.AList" "HOL-Library.Char_ord" "HOL-Library.List_Lexorder"
begin

section \<open>Go values used by request.go\<close>

text \<open>
  A Go string is a sequence of bytes, here a \<^typ>\<open>string\<close>. A Go
  \<^verbatim>\<open>map[string]string\<close> is the list of its entries, with pairwise different keys. Go
  fixes no order in which a \<^verbatim>\<open>range\<close> loop visits a map. The params, form and files
  maps are only read, by one loop each: their list is in the order in which that loop
  happens to visit them, and a statement about them is made for every list. The headers
  map is written by the encoders before the dispatcher ranges over it: there the order
  is a ranking of the keys that the runtime chooses (\<open>visit\<close>, below). A map may be nil:
  its length is 0 and a loop over it (\<open>entries\<close>) visits nothing, as for the empty map,
  while writing an entry into it panics.
\<close>

type_synonym gomap = "(string \<times> string) list"

definition len :: "gomap option \<Rightarrow> nat" where
  "len m = (case m of None \<Rightarrow> 0 | Some es \<Rightarrow> length es)"

definition entries :: "'a list option \<Rightarrow> 'a list" where
  "entries m = (case m of None \<Rightarrow> [] | Some es \<Rightarrow> es)"

text \<open>The assignment \<^verbatim>\<open>m[k] = v\<close> to a map that is not nil: the entry of the key is
  replaced or added.\<close>

definition store :: "string \<Rightarrow> string \<Rightarrow> gomap \<Rightarrow> gomap" where
  "store k v m = (k, v) # filter (\<lambda>e. fst e \<noteq> k) m"

text \<open>
  The errors of the package are plain Go error values. \<open>ErrorsNew\<close> is
  \<^verbatim>\<open>errors.New(msg)\<close>; the other constructors are the errors handed back by the
  standard library: by \<^verbatim>\<open>http.NewRequest\<close>, \<^verbatim>\<open>json.Marshal\<close>,
  \<^verbatim>\<open>io.Copy\<close> and \<^verbatim>\<open>client.Do\<close>.
\<close>

datatype error =
    ErrorsNew string
  | NewRequestError string
  | MarshalError string
  | CopyError string
  | DoError string

text \<open>
  A request body is an \<^verbatim>\<open>io.Reader\<close>. The encoders declare
  \<^verbatim>\<open>var body *strings.Reader\<close>, so the interface value they pass on is either a
  reader over some bytes or a nil pointer wrapped in a non-nil interface; the
  \<open>Body\<close> field itself may hold the nil interface (\<open>None\<close>).
\<close>

datatype reader = NilPointer | Reader string

text \<open>A named byte source of the files payload: the name it declares, the bytes it
  delivers, and the read error (if any) that ends the stream after those bytes.\<close>

record File =
  Name :: string
  Content :: string
  ReadErr :: "string option"

datatype AuthType = HTTPNoAuth | HTTPBasicAuth

record Auth =
  authType :: AuthType
  username :: string
  password :: string

section \<open>Option Set\<close>

text \<open>
  Modelled from the spec: the struct \<^verbatim>\<open>Options\<close>, the functional options and
  \<^verbatim>\<open>parseOptions\<close> are declared outside request.go. The fields are the ones
  request.go reads (3. DATA MODEL); the applicators are the recognised option effects
  (6. EXTERNAL INTERFACES) and \<^verbatim>\<open>Body\<close>, which the encoders append; each
  overrides its field (4.1), and \<open>parseOptions\<close> applies them left to right. The
  Option Set they are applied to is a parameter: the spec calls it zero-valued and the
  result fully populated, which does not say whether its maps are nil or empty.
\<close>

record ('d, 'j) Options =
  Headers :: "gomap option"
  Params :: "gomap option"
  Body :: "reader option"
  Data :: "'d option"
  Form :: "gomap option"
  JSON :: "'j option"
  Files :: "(string \<times> File) list option"
  Auth :: Auth
  Timeout :: int
  DisableKeepAlives :: bool

datatype ('d, 'j) Setter =
    Headers_opt "gomap option"
  | Params_opt "gomap option"
  | Body_opt "reader option"
  | Data_opt "'d option"
  | Form_opt "gomap option"
  | JSON_opt "'j option"
  | Files_opt "(string \<times> File) list option"
  | Auth_opt Auth
  | Timeout_opt int
  | DisableKeepAlives_opt bool

fun apply_setter :: "('d, 'j) Options \<Rightarrow> ('d, 'j) Setter \<Rightarrow> ('d, 'j) Options" where
  "apply_setter opts (Headers_opt h) = opts\<lparr>Headers := h\<rparr>"
| "apply_setter opts (Params_opt p) = opts\<lparr>Params := p\<rparr>"
| "apply_setter opts (Body_opt b) = opts\<lparr>Body := b\<rparr>"
| "apply_setter opts (Data_opt d) = opts\<lparr>Data := d\<rparr>"
| "apply_setter opts (Form_opt f) = opts\<lparr>Form := f\<rparr>"
| "apply_setter opts (JSON_opt j) = opts\<lparr>JSON := j\<rparr>"
| "apply_setter opts (Files_opt fs) = opts\<lparr>Files := fs\<rparr>"
| "apply_setter opts (Auth_opt a) = opts\<lparr>Auth := a\<rparr>"
| "apply_setter opts (Timeout_opt t) = opts\<lparr>Timeout := t\<rparr>"
| "apply_setter opts (DisableKeepAlives_opt b) = opts\<lparr>DisableKeepAlives := b\<rparr>"

definition parseOptions ::
  "('d, 'j) Options \<Rightarrow> ('d, 'j) Setter list \<Rightarrow> ('d, 'j) Options" where
  "parseOptions defaults setters = foldl apply_setter defaults setters"

section \<open>The standard library functions request.go calls\<close>

subsection \<open>net/url: query escaping and \<^verbatim>\<open>url.Values\<close>\<close>

definition isDigit :: "char \<Rightarrow> bool" where
  "isDigit c = (CHR ''0'' \<le> c \<and> c \<le> CHR ''9'')"

definition isLower :: "char \<Rightarrow> bool" where
  "isLower c = (CHR ''a'' \<le> c \<and> c \<le> CHR ''z'')"

definition isUpper :: "char \<Rightarrow> bool" where
  "isUpper c = (CHR ''A'' \<le> c \<and> c \<le> CHR ''Z'')"

text \<open>\<^verbatim>\<open>shouldEscape(c, encodeQueryComponent)\<close>: only the unreserved characters of
  RFC 3986 stay as they are.\<close>

definition shouldEscape :: "char \<Rightarrow> bool" where
  "shouldEscape c =
     (\<not> (isLower c \<or> isUpper c \<or> isDigit c
         \<or> c = CHR ''-'' \<or> c = CHR ''_'' \<or> c = CHR ''.'' \<or> c = CHR ''~''))"

definition upperhex :: "nat \<Rightarrow> char" where
  "upperhex n = ''0123456789ABCDEF'' ! (n mod 16)"

fun QueryEscape :: "string \<Rightarrow> string" where
  "QueryEscape [] = []"
| "QueryEscape (c # s) =
     (if c = CHR '' '' then CHR ''+'' # QueryEscape s
      else if shouldEscape c
        then CHR ''%'' # upperhex (of_char c div 16) # upperhex (of_char c mod 16) # QueryEscape s
      else c # QueryEscape s)"

definition ishex :: "char \<Rightarrow> bool" where
  "ishex c = (isDigit c \<or> (CHR ''a'' \<le> c \<and> c \<le> CHR ''f'') \<or> (CHR ''A'' \<le> c \<and> c \<le> CHR ''F''))"

definition unhex :: "char \<Rightarrow> nat" where
  "unhex c =
     (if isDigit c then of_char c - of_char CHR ''0''
      else if CHR ''a'' \<le> c \<and> c \<le> CHR ''f'' then of_char c - of_char CHR ''a'' + 10
      else if CHR ''A'' \<le> c \<and> c \<le> CHR ''F'' then of_char c - of_char CHR ''A'' + 10
      else 0)"

text \<open>\<^verbatim>\<open>QueryUnescape\<close>; \<open>None\<close> is its \<^verbatim>\<open>EscapeError\<close>.\<close>

fun QueryUnescape :: "string \<Rightarrow> string option" where
  "QueryUnescape [] = Some []"
| "QueryUnescape (c # s) =
     (if c = CHR ''%'' then
        (case s of
           h1 # h2 # t \<Rightarrow>
             if ishex h1 \<and> ishex h2
             then map_option ((#) (char_of (unhex h1 * 16 + unhex h2))) (QueryUnescape t)
             else None
         | _ \<Rightarrow> None)
      else if c = CHR ''+'' then map_option ((#) CHR '' '') (QueryUnescape s)
      else map_option ((#) c) (QueryUnescape s))"

text \<open>\<^verbatim>\<open>url.Values\<close> is a \<^verbatim>\<open>map[string][]string\<close>. \<open>Add\<close> appends a value to
  the values of a key; \<open>Encode\<close> writes \<^verbatim>\<open>key=value\<close> pairs joined by \<^verbatim>\<open>&\<close>, the keys
  sorted.\<close>

type_synonym Values = "(string \<times> string list) list"

definition Get_all :: "Values \<Rightarrow> string \<Rightarrow> string list" where
  "Get_all v k = (case map_of v k of None \<Rightarrow> [] | Some vs \<Rightarrow> vs)"

definition Add :: "string \<Rightarrow> string \<Rightarrow> Values \<Rightarrow> Values" where
  "Add k x v = AList.update k (Get_all v k @ [x]) v"

fun Encode_values :: "string \<Rightarrow> string list \<Rightarrow> string \<Rightarrow> string" where
  "Encode_values keyEscaped [] buf = buf"
| "Encode_values keyEscaped (x # xs) buf =
     Encode_values keyEscaped xs
       ((if buf \<noteq> [] then buf @ ''&'' else buf) @ keyEscaped @ ''='' @ QueryEscape x)"

fun Encode_keys :: "Values \<Rightarrow> string list \<Rightarrow> string \<Rightarrow> string" where
  "Encode_keys v [] buf = buf"
| "Encode_keys v (k # ks) buf =
     Encode_keys v ks (Encode_values (QueryEscape k) (Get_all v k) buf)"

definition Encode :: "Values \<Rightarrow> string" where
  "Encode v = Encode_keys v (sort (map fst v)) []"

text \<open>The loop \<^verbatim>\<open>for k, v := range m { values.Add(k, v) }\<close> of \<open>request\<close> and
  \<open>requestForm\<close>.\<close>

definition add_all :: "gomap \<Rightarrow> Values" where
  "add_all m = foldl (\<lambda>v (k, x). Add k x v) [] m"

subsection \<open>net/textproto and net/http: header keys, Basic credentials\<close>

text \<open>\<^verbatim>\<open>validHeaderFieldByte\<close>: the token characters of RFC 7230.\<close>

definition validHeaderFieldByte :: "char \<Rightarrow> bool" where
  "validHeaderFieldByte c =
     (isLower c \<or> isUpper c \<or> isDigit c
      \<or> c \<in> set (''!#$%&*+-.^_|~'' @ [CHR 0x27, CHR 0x60]))"

text \<open>The loop of \<^verbatim>\<open>canonicalMIMEHeaderKey\<close>: upper case for the first letter and
  for a letter after a dash, lower case for every other letter.\<close>

fun canonical :: "bool \<Rightarrow> string \<Rightarrow> string" where
  "canonical upper [] = []"
| "canonical upper (c # s) =
     (let c' = (if upper \<and> isLower c then char_of (of_char c - (32::nat))
                else if \<not> upper \<and> isUpper c then char_of (of_char c + (32::nat))
                else c)
      in c' # canonical (c' = CHR ''-'') s)"

definition CanonicalMIMEHeaderKey :: "string \<Rightarrow> string" where
  "CanonicalMIMEHeaderKey s = (if list_all validHeaderFieldByte s then canonical True s else s)"

text \<open>\<^verbatim>\<open>http.Header\<close> is a \<^verbatim>\<open>map[string][]string\<close>; \<open>Set\<close> replaces the values
  of the canonical key by the one value.\<close>

definition Header_Set :: "string \<Rightarrow> string \<Rightarrow> Values \<Rightarrow> Values" where
  "Header_Set k x h = AList.update (CanonicalMIMEHeaderKey k) [x] h"

text \<open>\<^verbatim>\<open>base64.StdEncoding.EncodeToString\<close>.\<close>

definition encodeStd :: "nat \<Rightarrow> char" where
  "encodeStd n =
     ''ABCDEFGHIJKLMNOPQRSTUVWXYZabcdefghijklmnopqrstuvwxyz0123456789+/'' ! (n mod 64)"

fun EncodeToString :: "string \<Rightarrow> string" where
  "EncodeToString (a # b # c # s) =
     encodeStd (of_char a div 4)
     # encodeStd ((of_char a mod 4) * 16 + of_char b div 16)
     # encodeStd ((of_char b mod 16) * 4 + of_char c div 64)
     # encodeStd (of_char c mod 64)
     # EncodeToString s"
| "EncodeToString [a, b] =
     [encodeStd (of_char a div 4),
      encodeStd ((of_char a mod 4) * 16 + of_char b div 16),
      encodeStd ((of_char b mod 16) * 4), CHR ''='']"
| "EncodeToString [a] =
     [encodeStd (of_char a div 4), encodeStd ((of_char a mod 4) * 16), CHR ''='', CHR ''='']"
| "EncodeToString [] = []"

definition basicAuth :: "string \<Rightarrow> string \<Rightarrow> string" where
  "basicAuth user pass = EncodeToString (user @ '':'' @ pass)"

subsection \<open>mime/multipart: the writer\<close>

text \<open>
  The writer of \<open>requestFiles\<close> writes into a \<^verbatim>\<open>bytes.Buffer\<close>, whose
  \<^verbatim>\<open>Write\<close> returns no error; so \<^verbatim>\<open>CreateFormFile\<close> and \<^verbatim>\<open>Close\<close> return none
  either, and the state of the writer is the buffer, the boundary (chosen at random by
  \<^verbatim>\<open>NewWriter\<close>, here a parameter) and whether a part is open.
\<close>

record Writer =
  buf :: string
  boundary :: string
  lastpart :: bool

definition CRLF :: string where
  "CRLF = [CHR 0x0D, CHR 0x0A]"

definition NewWriter :: "string \<Rightarrow> Writer" where
  "NewWriter b = \<lparr>buf = [], boundary = b, lastpart = False\<rparr>"

text \<open>\<^verbatim>\<open>escapeQuotes\<close>: a backslash before every backslash and double quote, and
  \<^verbatim>\<open>%0D\<close> and \<^verbatim>\<open>%0A\<close> for a carriage return and a line feed.\<close>

fun escapeQuotes :: "string \<Rightarrow> string" where
  "escapeQuotes [] = []"
| "escapeQuotes (c # s) =
     (if c = CHR 0x5C \<or> c = CHR 0x22 then CHR 0x5C # c # escapeQuotes s
      else if c = CHR 0x0D then ''%0D'' @ escapeQuotes s
      else if c = CHR 0x0A then ''%0A'' @ escapeQuotes s
      else c # escapeQuotes s)"

text \<open>\<^verbatim>\<open>CreatePart\<close> writes the delimiter and the header lines, the keys sorted.\<close>

definition CreatePart :: "(string \<times> string) list \<Rightarrow> Writer \<Rightarrow> Writer" where
  "CreatePart header w =
     w\<lparr>buf := buf w
              @ (if lastpart w then CRLF @ ''--'' @ boundary w @ CRLF
                 else ''--'' @ boundary w @ CRLF)
              @ concat (map (\<lambda>(k, x). k @ '': '' @ x @ CRLF) (sort_key fst header))
              @ CRLF,
       lastpart := True\<rparr>"

definition CreateFormFile :: "string \<Rightarrow> string \<Rightarrow> Writer \<Rightarrow> Writer" where
  "CreateFormFile fieldname filename w =
     CreatePart
       [(''Content-Disposition'',
         ''form-data; name='' @ [CHR 0x22] @ escapeQuotes fieldname @ [CHR 0x22]
           @ ''; filename='' @ [CHR 0x22] @ escapeQuotes filename @ [CHR 0x22]),
        (''Content-Type'', ''application/octet-stream'')] w"

definition Write :: "string \<Rightarrow> Writer \<Rightarrow> Writer" where
  "Write bytes w = w\<lparr>buf := buf w @ bytes\<rparr>"

definition Close :: "Writer \<Rightarrow> Writer" where
  "Close w = w\<lparr>buf := buf w @ CRLF @ ''--'' @ boundary w @ ''--'' @ CRLF, lastpart := False\<rparr>"

text \<open>The boundary is quoted when it holds a space or one of the tspecials of RFC 2045
  (the random one, sixty hexadecimal digits, never does).\<close>

definition FormDataContentType :: "Writer \<Rightarrow> string" where
  "FormDataContentType w =
     (let b = boundary w;
          b = (if \<exists>c \<in> set b. c \<in> set (''()<>@,;:/[]?= '' @ [CHR 0x5C, CHR 0x22])
               then [CHR 0x22] @ b @ [CHR 0x22] else b)
      in ''multipart/form-data; boundary='' @ b)"

section \<open>The collaborators of a call\<close>

datatype Method = MethodGet | MethodPost | MethodPut | MethodPatch | MethodDelete

text \<open>The outbound \<^verbatim>\<open>http.Request\<close> and the raw \<^verbatim>\<open>http.Response\<close>, with the
  fields request.go touches.\<close>

record Request =
  Method :: Method
  URL :: string
  Header :: Values
  ReqBody :: "string option"

record http_Response =
  StatusCode :: int
  Status :: string
  RspHeader :: Values
  RspBody :: string

text \<open>The wrapper \<^verbatim>\<open>&Response{rsp: rsp}\<close>.\<close>

datatype Response = Response (rsp: http_Response)

text \<open>
  What a call depends on outside request.go: the Option Set \<open>parseOptions\<close> starts
  from, \<^verbatim>\<open>fmt.Sprintf("%v", _)\<close> on the data payload, \<^verbatim>\<open>json.Marshal\<close> with its
  error message, the error (if any) of \<^verbatim>\<open>url.Parse\<close> inside \<^verbatim>\<open>http.NewRequest\<close>,
  the boundary the multipart writer draws, the rank at which the loop over the headers
  map visits each key (every order of a map is the order of such a ranking), and the
  round trip \<^verbatim>\<open>client.Do\<close> of a client built with the timeout and keep-alive
  settings and the redirect policy: it answers with an error message, with a nil
  response, or with a response.
\<close>

record ('d, 'j) env =
  defaults :: "('d, 'j) Options"
  Sprintf :: "'d \<Rightarrow> string"
  Marshal :: "'j \<Rightarrow> string + string"
  Parse :: "string \<Rightarrow> string option"
  randomBoundary :: string
  visit :: "string \<Rightarrow> nat"
  Do :: "int \<Rightarrow> bool \<Rightarrow> Request \<Rightarrow> string + http_Response option"

text \<open>A call returns the pair \<^verbatim>\<open>(*Response, error)\<close> or panics; beside that outcome
  the model keeps the requests the call constructed and submitted to the transport.\<close>

datatype outcome = Panic | Return "Response option" "error option"

datatype event = Constructed Request | Submitted Request

type_synonym result = "event list \<times> outcome"

text \<open>
  \<^verbatim>\<open>http.NewRequest\<close>: the method is one of the five constants, so only the
  URL can be refused; then the length of a \<^verbatim>\<open>*strings.Reader\<close> or
  \<^verbatim>\<open>*bytes.Buffer\<close> body is read, which dereferences a nil pointer.
\<close>

datatype NewRequest_result = NewRequest_panic | NewRequest_err error | NewRequest_ok Request

definition NewRequest ::
  "('d, 'j) env \<Rightarrow> Method \<Rightarrow> string \<Rightarrow> reader option \<Rightarrow> NewRequest_result" where
  "NewRequest env method url body =
     (case Parse env url of
        Some msg \<Rightarrow> NewRequest_err (NewRequestError msg)
      | None \<Rightarrow>
          (case body of
             None \<Rightarrow> NewRequest_ok \<lparr>Method = method, URL = url, Header = [], ReqBody = None\<rparr>
           | Some NilPointer \<Rightarrow> NewRequest_panic
           | Some (Reader bytes) \<Rightarrow>
               NewRequest_ok \<lparr>Method = method, URL = url, Header = [], ReqBody = Some bytes\<rparr>))"

definition SetBasicAuth :: "string \<Rightarrow> string \<Rightarrow> Request \<Rightarrow> Request" where
  "SetBasicAuth user pass req =
     req\<lparr>Header := Header_Set ''Authorization'' (''Basic '' @ basicAuth user pass) (Header req)\<rparr>"

section \<open>request.go\<close>

subsection \<open>The dispatcher\<close>

definition params_conflict :: error where
  "params_conflict =
     ErrorsNew (''params not nil, so raw url should not contain character ''
                @ [CHR 0x27, CHR ''?'', CHR 0x27])"

text \<open>The middle of \<open>request\<close>: fill the headers of the new request from the
  Option Set, the loop visiting the entries of the headers map by rank (\<open>ranged\<close>), then
  set the Basic credentials.\<close>

definition ranged :: "('d, 'j) env \<Rightarrow> gomap option \<Rightarrow> gomap" where
  "ranged env m = sort_key (\<lambda>e. visit env (fst e)) (entries m)"

definition fill_request ::
  "('d, 'j) env \<Rightarrow> ('d, 'j) Options \<Rightarrow> Request \<Rightarrow> Request" where
  "fill_request env opts req0 =
     (let req1 = (if Headers opts \<noteq> None
                  then req0\<lparr>Header := foldl (\<lambda>h (k, v). Header_Set k v h) (Header req0)
                                           (ranged env (Headers opts))\<rparr>
                  else req0)
      in if authType (Auth opts) = HTTPBasicAuth
         then SetBasicAuth (username (Auth opts)) (password (Auth opts)) req1
         else req1)"

text \<open>The end of \<open>request\<close>: what it returns for each answer of \<^verbatim>\<open>client.Do\<close>;
  \<^verbatim>\<open>http.StatusOK\<close> is 200 and \<^verbatim>\<open>http.StatusIMUsed\<close> is 226.\<close>

definition wrap :: "string + http_Response option \<Rightarrow> outcome" where
  "wrap answer =
     (case answer of
        Inl msg \<Rightarrow> Return None (Some (DoError msg))
      | Inr None \<Rightarrow> Return None (Some (ErrorsNew ''response is nil''))
      | Inr (Some resp) \<Rightarrow>
          (let r = Response resp
           in if StatusCode resp < 200 \<or> StatusCode resp > 226
              then Return (Some r) (Some (ErrorsNew (Status resp)))
              else Return (Some r) None))"

text \<open>\<open>request\<close> from \<^verbatim>\<open>http.NewRequest\<close> on.\<close>

definition request_send ::
  "('d, 'j) env \<Rightarrow> ('d, 'j) Options \<Rightarrow> Method \<Rightarrow> string \<Rightarrow> result" where
  "request_send env opts method rawurl =
     (case NewRequest env method rawurl (Body opts) of
        NewRequest_panic \<Rightarrow> ([], Panic)
      | NewRequest_err err \<Rightarrow> ([], Return None (Some err))
      | NewRequest_ok req0 \<Rightarrow>
          (let req = fill_request env opts req0
           in ([Constructed req0, Submitted req],
               wrap (Do env (Timeout opts) (DisableKeepAlives opts) req))))"

definition request ::
  "('d, 'j) env \<Rightarrow> Method \<Rightarrow> string \<Rightarrow> ('d, 'j) Setter list \<Rightarrow> result" where
  "request env method rawurl setters =
     (let opts = parseOptions (defaults env) setters
      in if Params opts \<noteq> None \<and> len (Params opts) \<noteq> 0
         then if CHR ''?'' \<in> set rawurl
              then ([], Return None (Some params_conflict))
              else (let queryValues = add_all (entries (Params opts));
                        queryString = Encode queryValues
                    in request_send env opts method (rawurl @ ''?'' @ queryString))
         else request_send env opts method rawurl)"

subsection \<open>The body encoders\<close>

definition requestData ::
  "('d, 'j) env \<Rightarrow> Method \<Rightarrow> string \<Rightarrow> ('d, 'j) Setter list \<Rightarrow> result" where
  "requestData env method rawurl setters =
     (let opts = parseOptions (defaults env) setters;
          body = (case Data opts of None \<Rightarrow> NilPointer | Some d \<Rightarrow> Reader (Sprintf env d))
      in request env method rawurl (setters @ [Body_opt (Some body)]))"

definition requestForm ::
  "('d, 'j) env \<Rightarrow> Method \<Rightarrow> string \<Rightarrow> ('d, 'j) Setter list \<Rightarrow> result" where
  "requestForm env method rawurl setters =
     (let opts = parseOptions (defaults env) setters;
          body = (case Form opts of
                    None \<Rightarrow> NilPointer
                  | Some form \<Rightarrow> Reader (Encode (add_all form)))
      in case Headers opts of
           None \<Rightarrow> ([], Panic)
         | Some h \<Rightarrow>
             (let headers = store ''Content-Type'' ''application/x-www-form-urlencoded'' h
              in request env method rawurl
                   (setters @ [Headers_opt (Some headers)] @ [Body_opt (Some body)])))"

definition requestJSON ::
  "('d, 'j) env \<Rightarrow> Method \<Rightarrow> string \<Rightarrow> ('d, 'j) Setter list \<Rightarrow> result" where
  "requestJSON env method rawurl setters =
     (let opts = parseOptions (defaults env) setters
      in case (case JSON opts of
                 None \<Rightarrow> Inr NilPointer
               | Some j \<Rightarrow> (case Marshal env j of
                              Inl msg \<Rightarrow> Inl (MarshalError msg)
                            | Inr reqBytes \<Rightarrow> Inr (Reader reqBytes))) of
           Inl err \<Rightarrow> ([], Return None (Some err))
         | Inr body \<Rightarrow>
             (case Headers opts of
                None \<Rightarrow> ([], Panic)
              | Some h \<Rightarrow>
                  (let headers = store ''Content-Type'' ''application/json'' h
                   in request env method rawurl
                        (setters @ [Headers_opt (Some headers)] @ [Body_opt (Some body)]))))"

text \<open>The loop of \<open>requestFiles\<close>: a part per entry, the source copied into it; the
  bytes read before a read error are already in the buffer when \<^verbatim>\<open>io.Copy\<close> returns
  the error.\<close>

fun copy_files :: "(string \<times> File) list \<Rightarrow> Writer \<Rightarrow> error + Writer" where
  "copy_files [] bodyWriter = Inr bodyWriter"
| "copy_files ((field, fh) # files) bodyWriter =
     (let fileWriter = CreateFormFile field (Name fh) bodyWriter;
          copied = Write (Content fh) fileWriter
      in case ReadErr fh of
           Some msg \<Rightarrow> Inl (CopyError msg)
         | None \<Rightarrow> copy_files files copied)"

definition requestFiles ::
  "('d, 'j) env \<Rightarrow> Method \<Rightarrow> string \<Rightarrow> ('d, 'j) Setter list \<Rightarrow> result" where
  "requestFiles env method rawurl setters =
     (let opts = parseOptions (defaults env) setters;
          bodyWriter = NewWriter (randomBoundary env)
      in case copy_files (entries (Files opts)) bodyWriter of
           Inl err \<Rightarrow> ([], Return None (Some err))
         | Inr bodyWriter \<Rightarrow>
             (case Headers opts of
                None \<Rightarrow> ([], Panic)
              | Some h \<Rightarrow>
                  (let headers = store ''Content-Type'' (FormDataContentType bodyWriter) h;
                       body = buf (Close bodyWriter)
                   in request env method rawurl
                        (setters @ [Headers_opt (Some headers)] @ [Body_opt (Some (Reader body))]))))"

subsection \<open>The verbs\<close>

definition Get :: "('d, 'j) env \<Rightarrow> string \<Rightarrow> ('d, 'j) Setter list \<Rightarrow> result" where
  "Get env rawurl setters = request env MethodGet rawurl setters"

definition Post :: "('d, 'j) env \<Rightarrow> string \<Rightarrow> ('d, 'j) Setter list \<Rightarrow> result" where
  "Post env rawurl setters =
     (let opts = parseOptions (defaults env) setters
      in if Data opts \<noteq> None then requestData env MethodPost rawurl setters
         else if Form opts \<noteq> None then requestForm env MethodPost rawurl setters
         else if JSON opts \<noteq> None then requestJSON env MethodPost rawurl setters
         else if Files opts \<noteq> None then requestFiles env MethodPost rawurl setters
         else request env MethodPost rawurl setters)"

definition Put :: "('d, 'j) env \<Rightarrow> string \<Rightarrow> ('d, 'j) Setter list \<Rightarrow> result" where
  "Put env rawurl setters =
     (let opts = parseOptions (defaults env) setters
      in if Data opts \<noteq> None then requestData env MethodPut rawurl setters
         else if Form opts \<noteq> None then requestForm env MethodPut rawurl setters
         else if JSON opts \<noteq> None then requestJSON env MethodPut rawurl setters
         else request env MethodPut rawurl setters)"

definition Patch :: "('d, 'j) env \<Rightarrow> string \<Rightarrow> ('d, 'j) Setter list \<Rightarrow> result" where
  "Patch env rawurl setters =
     (let opts = parseOptions (defaults env) setters
      in if Data opts \<noteq> None then requestData env MethodPatch rawurl setters
         else if Form opts \<noteq> None then requestForm env MethodPatch rawurl setters
         else if JSON opts \<noteq> None then requestJSON env MethodPatch rawurl setters
         else request env MethodPatch rawurl setters)"

definition Delete :: "('d, 'j) env \<Rightarrow> string \<Rightarrow> ('d, 'j) Setter list \<Rightarrow> result" where
  "Delete env rawurl setters =
     (let opts = parseOptions (defaults env) setters
      in if Data opts \<noteq> None then requestData env MethodDelete rawurl setters
         else if Form opts \<noteq> None then requestForm env MethodDelete rawurl setters
         else if JSON opts \<noteq> None then requestJSON env MethodDelete rawurl setters
         else request env MethodDelete rawurl setters)"

text \<open>The five public entry points, for statements about every verb.\<close>

datatype Verb = VGet | VPost | VPut | VPatch | VDelete

fun call :: "('d, 'j) env \<Rightarrow> Verb \<Rightarrow> string \<Rightarrow> ('d, 'j) Setter list \<Rightarrow> result" where
  "call env VGet rawurl setters = Get env rawurl setters"
| "call env VPost rawurl setters = Post env rawurl setters"
| "call env VPut rawurl setters = Put env rawurl setters"
| "call env VPatch rawurl setters = Patch env rawurl setters"
| "call env VDelete rawurl setters = Delete env rawurl setters"

section \<open>How a call ends\<close>

text \<open>A call that ends before any request exists: it panics or returns a nil response
  and an error, and has constructed and submitted nothing.\<close>

definition early :: "result \<Rightarrow> bool" where
  "early r = (fst r = [] \<and> (snd r = Panic \<or> (\<exists>err. snd r = Return None (Some err))))"

text \<open>Two Option Sets with the same credentials, transport settings and query
  parameters: the encoders append only \<^verbatim>\<open>Headers\<close> and \<^verbatim>\<open>Body\<close>.\<close>

definition same_settings :: "('d, 'j) Options \<Rightarrow> ('d, 'j) Options \<Rightarrow> bool" where
  "same_settings a b =
     (Auth a = Auth b \<and> Timeout a = Timeout b \<and> DisableKeepAlives a = DisableKeepAlives b
      \<and> Params a = Params b)"

text \<open>Every verb either ends early or hands the URL and an extended option list to the
  dispatcher.\<close>

definition dispatched ::
  "('d, 'j) env \<Rightarrow> ('d, 'j) Setter list \<Rightarrow> string \<Rightarrow> result \<Rightarrow> bool" where
  "dispatched env s u r =
     (early r \<or> (\<exists>m s'. r = request env m u s'
                    \<and> same_settings (parseOptions (defaults env) s') (parseOptions (defaults env) s)))"

text \<open>A header whose keys are all in canonical form: no second spelling of a header
  name is a key.\<close>

definition canonical_keys :: "Values \<Rightarrow> bool" where
  "canonical_keys h = (\<forall>k \<in> fst ` set h. CanonicalMIMEHeaderKey k = k)"

text \<open>A concrete setting for examples: string payloads, a marshaller that refuses the
  value \<open>chan\<close>, a URL parser that accepts everything, and a transport with a fixed
  answer.\<close>

definition example_defaults :: "(string, string) Options" where
  "example_defaults =
     \<lparr>Headers = Some [], Params = None, Body = None, Data = None, Form = None, JSON = None,
      Files = None, Auth = \<lparr>authType = HTTPNoAuth, username = [], password = []\<rparr>,
      Timeout = 0, DisableKeepAlives = False\<rparr>"

definition example_env :: "string + http_Response option \<Rightarrow> (string, string) env" where
  "example_env answer =
     \<lparr>defaults = example_defaults, Sprintf = (\<lambda>d. d),
      Marshal = (\<lambda>j. if j = ''chan'' then Inl ''json: unsupported type'' else Inr j),
      Parse = (\<lambda>u. None), randomBoundary = ''b0'', visit = (\<lambda>k. 0),
      Do = (\<lambda>t k req. answer)\<rparr>"

definition example_response :: "int \<Rightarrow> string \<Rightarrow> http_Response" where
  "example_response code line =
     \<lparr>StatusCode = code, Status = line, RspHeader = [(''Server'', [''example''])], RspBody = []\<rparr>"

text \<open>The query-parameter conflict that \<open>request\<close> refuses: parameters to append and
  a URL that already holds a question mark.\<close>

definition conflicting :: "('d, 'j) env \<Rightarrow> ('d, 'j) Setter list \<Rightarrow> string \<Rightarrow> bool" where
  "conflicting env s u =
     (Params (parseOptions (defaults env) s) \<noteq> None
      \<and> len (Params (parseOptions (defaults env) s)) \<noteq> 0 \<and> CHR ''?'' \<in> set u)"

text \<open>A readable file source for examples.\<close>

definition example_file :: File where
  "example_file = \<lparr>Name = ''a.txt'', Content = ''hi'', ReadErr = None\<rparr>"

text \<open>
  The body encoder a verb selects, read off the chains of tests in \<open>Post\<close>, \<open>Put\<close>,
  \<open>Patch\<close> and \<open>Delete\<close> (\<open>Get\<close> selects none), and the HTTP method of each verb.
\<close>

datatype Encoder = NoEncoder | DataEncoder | FormEncoder | JSONEncoder | FilesEncoder

definition selected :: "Verb \<Rightarrow> ('d, 'j) Options \<Rightarrow> Encoder" where
  "selected v opts =
     (if v = VGet then NoEncoder
      else if Data opts \<noteq> None then DataEncoder
      else if Form opts \<noteq> None then FormEncoder
      else if JSON opts \<noteq> None then JSONEncoder
      else if v = VPost \<and> Files opts \<noteq> None then FilesEncoder
      else NoEncoder)"

fun method_of :: "Verb \<Rightarrow> Method" where
  "method_of VGet = MethodGet"
| "method_of VPost = MethodPost"
| "method_of VPut = MethodPut"
| "method_of VPatch = MethodPatch"
| "method_of VDelete = MethodDelete"

text \<open>The read error of the first source, in the order of the loop, whose stream
  fails.\<close>

definition first_read_error :: "(string \<times> File) list \<Rightarrow> error option" where
  "first_read_error fs =
     (case filter (\<lambda>e. ReadErr (snd e) \<noteq> None) fs of
        [] \<Rightarrow> None
      | e # _ \<Rightarrow> map_option CopyError (ReadErr (snd e)))"

text \<open>The error with which the selected encoder returns before it reaches the
  dispatcher, if it does: the json encoder when the payload does not marshal, the files
  encoder when a source fails to read.\<close>

definition encoder_error :: "('d, 'j) env \<Rightarrow> Verb \<Rightarrow> ('d, 'j) Options \<Rightarrow> error option" where
  "encoder_error env v opts =
     (case selected v opts of
        JSONEncoder \<Rightarrow>
          (case JSON opts of
             None \<Rightarrow> None
           | Some j \<Rightarrow> (case Marshal env j of Inl msg \<Rightarrow> Some (MarshalError msg) | Inr b \<Rightarrow> None))
      | FilesEncoder \<Rightarrow> first_read_error (entries (Files opts))
      | _ \<Rightarrow> None)"

text \<open>The encoders that write \<^verbatim>\<open>Content-Type\<close> into the headers mapping.\<close>

definition writes_headers :: "Encoder \<Rightarrow> bool" where
  "writes_headers enc = (enc = FormEncoder \<or> enc = JSONEncoder \<or> enc = FilesEncoder)"

section \<open>Reading a multipart message\<close>

text \<open>
  A reader of multipart messages, to say what a body holds on the wire. The framing is
  that of RFC 2046: the parts are separated by the delimiter (a line break, two dashes,
  the boundary), each part is its header lines, an empty line and its content, and two
  dashes after the last delimiter close the message. The name and the file name of a
  part are the quoted strings of its \<^verbatim>\<open>Content-Disposition: form-data\<close> header, in
  which a backslash quotes the next character.
\<close>

record Part =
  part_name :: string
  part_filename :: string
  part_content :: string

definition line_break :: string where
  "line_break = [CHR 0x0D, CHR 0x0A]"

definition delimiter :: "string \<Rightarrow> string" where
  "delimiter b = line_break @ ''--'' @ b"

text \<open>\<open>Cut sep s\<close> splits \<open>s\<close> around the first occurrence of \<open>sep\<close>.\<close>

fun Cut :: "string \<Rightarrow> string \<Rightarrow> (string \<times> string) option" where
  "Cut sep [] = (if sep = [] then Some ([], []) else None)"
| "Cut sep (c # s) =
     (if take (length sep) (c # s) = sep then Some ([], drop (length sep) (c # s))
      else map_option (\<lambda>(before, after). (c # before, after)) (Cut sep s))"

definition strip_prefix :: "string \<Rightarrow> string \<Rightarrow> string option" where
  "strip_prefix p s = (if take (length p) s = p then Some (drop (length p) s) else None)"

text \<open>A quoted string, read from behind its opening quote to its closing quote.\<close>

fun read_quoted :: "string \<Rightarrow> (string \<times> string) option" where
  "read_quoted [] = None"
| "read_quoted (c # s) =
     (if c = CHR 0x22 then Some ([], s)
      else if c = CHR 0x5C then
        (case s of
           [] \<Rightarrow> None
         | d # t \<Rightarrow> map_option (\<lambda>(v, rest). (d # v, rest)) (read_quoted t))
      else map_option (\<lambda>(v, rest). (c # v, rest)) (read_quoted s))"

definition read_disposition :: "string \<Rightarrow> (string \<times> string) option" where
  "read_disposition v =
     (case strip_prefix (''form-data; name='' @ [CHR 0x22]) v of
        None \<Rightarrow> None
      | Some r1 \<Rightarrow>
          (case read_quoted r1 of
             None \<Rightarrow> None
           | Some (name, r2) \<Rightarrow>
               (case strip_prefix (''; filename='' @ [CHR 0x22]) r2 of
                  None \<Rightarrow> None
                | Some r3 \<Rightarrow>
                    (case read_quoted r3 of
                       Some (filename, []) \<Rightarrow> Some (name, filename)
                     | _ \<Rightarrow> None))))"

lemma cut_shorter:
  "Cut sep s = Some (a, b) \<Longrightarrow> sep \<noteq> [] \<Longrightarrow> length b < length s"
  by (induction s arbitrary: a) (auto split: if_splits)

text \<open>The header lines of a part, up to the empty line, and what follows it.\<close>

function header_lines :: "string \<Rightarrow> (string list \<times> string) option" where
  "header_lines s =
     (case Cut line_break s of
        None \<Rightarrow> None
      | Some (line, rest) \<Rightarrow>
          if line = [] then Some ([], rest)
          else map_option (\<lambda>(ls, content). (line # ls, content)) (header_lines rest))"
  by pat_completeness auto

termination header_lines
  by (relation "measure length") (auto dest: cut_shorter simp: line_break_def)

fun header_value :: "string \<Rightarrow> string list \<Rightarrow> string option" where
  "header_value key [] = None"
| "header_value key (l # ls) =
     (case strip_prefix (key @ '': '') l of
        Some v \<Rightarrow> Some v
      | None \<Rightarrow> header_value key ls)"

definition read_part :: "string \<Rightarrow> Part option" where
  "read_part text =
     (case header_lines text of
        None \<Rightarrow> None
      | Some (ls, content) \<Rightarrow>
          (case header_value ''Content-Disposition'' ls of
             None \<Rightarrow> None
           | Some v \<Rightarrow>
               (case read_disposition v of
                  None \<Rightarrow> None
                | Some (name, filename) \<Rightarrow>
                    Some \<lparr>part_name = name, part_filename = filename, part_content = content\<rparr>)))"

text \<open>The parts behind a delimiter: two dashes close the message; otherwise the line
  ends and a part runs up to the next delimiter.\<close>

function read_parts :: "string \<Rightarrow> string \<Rightarrow> Part list option" where
  "read_parts d s =
     (if d = [] then None
      else if take 2 s = ''--'' then Some []
      else (case strip_prefix line_break s of
              None \<Rightarrow> None
            | Some t \<Rightarrow>
                (case Cut d t of
                   None \<Rightarrow> None
                 | Some (text, rest) \<Rightarrow>
                     (case read_part text of
                        None \<Rightarrow> None
                      | Some p \<Rightarrow> map_option ((#) p) (read_parts d rest)))))"
  by pat_completeness auto

termination read_parts
  by (relation "measure (\<lambda>(d, s). length s)")
     (auto dest!: cut_shorter simp: strip_prefix_def split: if_splits)

definition read_message :: "string \<Rightarrow> string \<Rightarrow> Part list option" where
  "read_message b body =
     (case Cut (delimiter b) (line_break @ body) of
        None \<Rightarrow> None
      | Some (preamble, s) \<Rightarrow> read_parts (delimiter b) s)"

text \<open>The conditions under which a part can be read back: a name holds no carriage
  return and no line feed; no delimiter begins in a content or in the line break
  before it.\<close>

definition plain :: "string \<Rightarrow> bool" where
  "plain s = (CHR 0x0D \<notin> set s \<and> CHR 0x0A \<notin> set s)"

definition delimiter_free :: "string \<Rightarrow> string \<Rightarrow> bool" where
  "delimiter_free b content =
     (Cut (delimiter b) (line_break @ content @ butlast (delimiter b)) = None)"

text \<open>The part that the entry of a field and a file stands for.\<close>

definition part_of :: "string \<times> File \<Rightarrow> Part" where
  "part_of e = \<lparr>part_name = fst e, part_filename = Name (snd e), part_content = Content (snd e)\<rparr>"

text \<open>What the writer puts out for a part behind the boundary line, and what it has
  put out behind the first delimiter when it closes.\<close>

definition part_text :: "Part \<Rightarrow> string" where
  "part_text p =
     ''Content-Disposition: form-data; name='' @ [CHR 0x22] @ escapeQuotes (part_name p)
       @ [CHR 0x22] @ ''; filename='' @ [CHR 0x22] @ escapeQuotes (part_filename p)
       @ [CHR 0x22] @ CRLF
     @ ''Content-Type: application/octet-stream'' @ CRLF @ CRLF @ part_content p"

fun written_tail :: "string \<Rightarrow> Part list \<Rightarrow> string" where
  "written_tail b [] = ''--'' @ CRLF"
| "written_tail b (p # ps) =
     CRLF @ part_text p @ CRLF @ ''--'' @ b @ written_tail b ps"

text \<open>The two header lines of a written part.\<close>

definition disposition_line :: "Part \<Rightarrow> string" where
  "disposition_line p =
     ''Content-Disposition: '' @ (''form-data; name='' @ [CHR 0x22] @ escapeQuotes (part_name p)
       @ [CHR 0x22] @ ''; filename='' @ [CHR 0x22] @ escapeQuotes (part_filename p)
       @ [CHR 0x22])"

definition type_line :: string where
  "type_line = ''Content-Type: application/octet-stream''"

text \<open>The files payload of two named byte sources, and the message written for it with
  the boundary \<^verbatim>\<open>b0\<close>; the message written for a field key holding a carriage return
  and a file name holding a line feed; the message written for a content that holds the
  closing delimiter.\<close>

definition example_files :: "(string \<times> File) list" where
  "example_files =
     [(''doc'', \<lparr>Name = ''a.txt'', Content = ''hi'', ReadErr = None\<rparr>),
      (''img'', \<lparr>Name = ''b.png'', Content = ''PNG'', ReadErr = None\<rparr>)]"

definition example_body :: string where
  "example_body =
     ''--b0'' @ line_break
     @ ''Content-Disposition: form-data; name='' @ [CHR 0x22] @ ''doc'' @ [CHR 0x22]
     @ ''; filename='' @ [CHR 0x22] @ ''a.txt'' @ [CHR 0x22] @ line_break
     @ ''Content-Type: application/octet-stream'' @ line_break @ line_break
     @ ''hi'' @ line_break
     @ ''--b0'' @ line_break
     @ ''Content-Disposition: form-data; name='' @ [CHR 0x22] @ ''img'' @ [CHR 0x22]
     @ ''; filename='' @ [CHR 0x22] @ ''b.png'' @ [CHR 0x22] @ line_break
     @ ''Content-Type: application/octet-stream'' @ line_break @ line_break
     @ ''PNG'' @ line_break
     @ ''--b0--'' @ line_break"

definition escaped_body :: string where
  "escaped_body =
     ''--b0'' @ line_break
     @ ''Content-Disposition: form-data; name='' @ [CHR 0x22] @ ''%0D'' @ [CHR 0x22]
     @ ''; filename='' @ [CHR 0x22] @ ''a%0A'' @ [CHR 0x22] @ line_break
     @ ''Content-Type: application/octet-stream'' @ line_break @ line_break
     @ ''hi'' @ line_break
     @ ''--b0--'' @ line_break"

definition broken_body :: string where
  "broken_body =
     ''--b0'' @ line_break
     @ ''Content-Disposition: form-data; name='' @ [CHR 0x22] @ ''f'' @ [CHR 0x22]
     @ ''; filename='' @ [CHR 0x22] @ ''a.txt'' @ [CHR 0x22] @ line_break
     @ ''Content-Type: application/octet-stream'' @ line_break @ line_break
     @ line_break @ ''--b0--'' @ line_break
     @ ''--b0--'' @ line_break"

section \<open>Reading a query string\<close>

text \<open>\<^verbatim>\<open>strings.Cut\<close> gives the text before and the text after the first occurrence of
  the separator, and the whole text and the empty text when there is none.\<close>

definition before_sep :: "string \<Rightarrow> string \<Rightarrow> string" where
  "before_sep sep s = (case Cut sep s of None \<Rightarrow> s | Some (a, b) \<Rightarrow> a)"

definition after_sep :: "string \<Rightarrow> string \<Rightarrow> string" where
  "after_sep sep s = (case Cut sep s of None \<Rightarrow> [] | Some (a, b) \<Rightarrow> b)"

text \<open>The query component of a URL, as \<^verbatim>\<open>url.Parse\<close> finds its \<^verbatim>\<open>RawQuery\<close>: the
  fragment is cut off at the first \<^verbatim>\<open>#\<close>, and the query is what follows the first
  \<^verbatim>\<open>?\<close> of the rest (a scheme holds no \<^verbatim>\<open>?\<close>).\<close>

definition RawQuery :: "string \<Rightarrow> string" where
  "RawQuery rawURL = after_sep ''?'' (before_sep ''#'' rawURL)"

text \<open>\<^verbatim>\<open>url.ParseQuery\<close>. The body of the loop of \<^verbatim>\<open>parseQuery\<close> reads one
  \<^verbatim>\<open>key=value\<close> setting: a setting with a semicolon is an error, an empty one is
  skipped, one that does not unescape is an error (the first such error is kept), and
  otherwise the value is appended to the values of the key.\<close>

definition parseQuery_setting ::
  "string \<Rightarrow> Values \<times> string option \<Rightarrow> Values \<times> string option" where
  "parseQuery_setting setting st =
     (if CHR '';'' \<in> set setting then (fst st, Some ''invalid semicolon separator in query'')
      else if setting = [] then st
      else (case QueryUnescape (before_sep ''='' setting) of
              None \<Rightarrow> (fst st, if snd st = None then Some ''invalid URL escape'' else snd st)
            | Some key \<Rightarrow>
               (case QueryUnescape (after_sep ''='' setting) of
                  None \<Rightarrow> (fst st, if snd st = None then Some ''invalid URL escape'' else snd st)
                | Some v \<Rightarrow> (Add key v (fst st), snd st))))"

lemma after_sep_shorter: "query \<noteq> [] \<Longrightarrow> length (after_sep ''&'' query) < length query"
  by (auto simp: after_sep_def dest: cut_shorter split: option.splits)

function parseQuery :: "Values \<times> string option \<Rightarrow> string \<Rightarrow> Values \<times> string option" where
  "parseQuery st query =
     (if query = [] then st
      else parseQuery (parseQuery_setting (before_sep ''&'' query) st) (after_sep ''&'' query))"
  by pat_completeness auto

termination parseQuery
  by (relation "measure (\<lambda>(st, query). length query)") (auto simp: after_sep_shorter)

definition ParseQuery :: "string \<Rightarrow> Values \<times> string option" where
  "ParseQuery query = parseQuery ([], None) query"

text \<open>A params mapping with two entries, one of them with a space, an ampersand and an
  equals sign in its value.\<close>

definition example_params :: gomap where
  "example_params = [(''q'', ''a b&c=d''), (''lang'', ''go'')]"

text \<open>The characters that separate the parts of a URL and the settings of a query; a
  setting as \<open>Encode\<close> writes it, and settings joined by \<^verbatim>\<open>&\<close>.\<close>

definition separator :: "char \<Rightarrow> bool" where
  "separator c = (c = CHR ''&'' \<or> c = CHR ''='' \<or> c = CHR '';'' \<or> c = CHR ''#'' \<or> c = CHR ''?'')"

definition setting :: "string \<times> string \<Rightarrow> string" where
  "setting e = QueryEscape (fst e) @ ''='' @ QueryEscape (snd e)"

fun joined :: "string list \<Rightarrow> string" where
  "joined [] = []"
| "joined [x] = x"
| "joined (x # y # ys) = x @ ''&'' @ joined (y # ys)"

section \<open>Structure of a call\<close>

lemma parseOptions_append:
  "parseOptions d (xs @ ys) = foldl apply_setter (parseOptions d xs) ys"
  by (simp add: parseOptions_def)

lemma request_send_cases:
  obtains (panic) "request_send env opts m u = ([], Panic)"
  | (refused) err where "request_send env opts m u = ([], Return None (Some err))"
  | (sent) req0 where "NewRequest env m u (Body opts) = NewRequest_ok req0"
      "request_send env opts m u =
         ([Constructed req0, Submitted (fill_request env opts req0)],
          wrap (Do env (Timeout opts) (DisableKeepAlives opts) (fill_request env opts req0)))"
  by (cases "NewRequest env m u (Body opts)") (simp_all add: request_send_def Let_def)

lemma same_settings_encoder:
  "same_settings (parseOptions d (s @ [Headers_opt h] @ [Body_opt b])) (parseOptions d s)"
  "same_settings (parseOptions d (s @ [Body_opt b])) (parseOptions d s)"
  "same_settings (parseOptions d s) (parseOptions d s)"
  by (simp_all add: same_settings_def parseOptions_append)

lemma request_cases:
  obtains (conflict) "request env m u s = ([], Return None (Some params_conflict))"
  | (send) u' where "request env m u s = request_send env (parseOptions (defaults env) s) m u'"
proof (cases "Params (parseOptions (defaults env) s) \<noteq> None
              \<and> len (Params (parseOptions (defaults env) s)) \<noteq> 0")
  case True
  show ?thesis
  proof (cases "CHR ''?'' \<in> set u")
    case q: True
    from True q have "request env m u s = ([], Return None (Some params_conflict))"
      by (simp add: request_def Let_def)
    then show ?thesis by (rule conflict)
  next
    case q: False
    from True q show ?thesis by (intro send) (simp add: request_def Let_def)
  qed
next
  case False
  then have "request env m u s = request_send env (parseOptions (defaults env) s) m u"
    unfolding request_def Let_def by (simp only: if_False)
  then show ?thesis by (rule send)
qed

lemma dispatched_early: "early r \<Longrightarrow> dispatched env s u r"
  by (simp add: dispatched_def)

lemma dispatchedI:
  "same_settings (parseOptions (defaults env) s') (parseOptions (defaults env) s) \<Longrightarrow>
   dispatched env s u (request env m u s')"
  unfolding dispatched_def by blast

lemma dispatched_request: "dispatched env s u (request env m u s)"
  by (rule dispatchedI) (rule same_settings_encoder)

lemma dispatched_requestData: "dispatched env s u (requestData env m u s)"
  unfolding requestData_def Let_def by (rule dispatchedI) (rule same_settings_encoder)

lemma dispatched_requestForm: "dispatched env s u (requestForm env m u s)"
proof (cases "Headers (parseOptions (defaults env) s)")
  case None
  then show ?thesis by (simp add: dispatched_def requestForm_def early_def)
next
  case (Some h)
  then show ?thesis
    unfolding requestForm_def Let_def
    by (simp del: append.simps) (rule dispatchedI, rule same_settings_encoder)
qed

lemma dispatched_requestJSON: "dispatched env s u (requestJSON env m u s)"
proof -
  let ?opts = "parseOptions (defaults env) s"
  show ?thesis
  proof (cases "case JSON ?opts of None \<Rightarrow> Inr NilPointer
               | Some j \<Rightarrow> (case Marshal env j of Inl msg \<Rightarrow> Inl (MarshalError msg)
                            | Inr reqBytes \<Rightarrow> Inr (Reader reqBytes))")
    case (Inl err)
    then show ?thesis by (simp add: dispatched_def requestJSON_def early_def)
  next
    case (Inr body)
    show ?thesis
    proof (cases "Headers ?opts")
      case None
      with Inr show ?thesis by (simp add: dispatched_def requestJSON_def early_def)
    next
      case (Some h)
      with Inr show ?thesis
        unfolding requestJSON_def Let_def
        by (simp del: append.simps) (rule dispatchedI, rule same_settings_encoder)
    qed
  qed
qed

lemma dispatched_requestFiles: "dispatched env s u (requestFiles env m u s)"
proof -
  let ?opts = "parseOptions (defaults env) s"
  show ?thesis
  proof (cases "copy_files (entries (Files ?opts)) (NewWriter (randomBoundary env))")
    case (Inl err)
    then show ?thesis by (simp add: dispatched_def requestFiles_def early_def)
  next
    case (Inr w)
    show ?thesis
    proof (cases "Headers ?opts")
      case None
      with Inr show ?thesis by (simp add: dispatched_def requestFiles_def early_def)
    next
      case (Some h)
      with Inr show ?thesis
        unfolding requestFiles_def Let_def
        by (simp del: append.simps) (rule dispatchedI, rule same_settings_encoder)
    qed
  qed
qed

lemmas dispatched_intros = dispatched_request dispatched_requestData dispatched_requestForm
  dispatched_requestJSON dispatched_requestFiles

lemma dispatched_call: "dispatched env s u (call env v u s)"
  by (cases v) (simp_all add: Get_def Post_def Put_def Patch_def Delete_def Let_def dispatched_intros)


lemma request_send_submitted:
  assumes "Submitted req \<in> set (fst (request_send env opts m u))"
  shows "snd (request_send env opts m u) = wrap (Do env (Timeout opts) (DisableKeepAlives opts) req)"
  using assms by (cases rule: request_send_cases [of env opts m u]) simp_all

lemma early_no_events: "early r \<Longrightarrow> e \<notin> set (fst r)"
  by (simp add: early_def)

lemma dispatched_submitted:
  assumes d: "dispatched env s u r" and sub: "Submitted req \<in> set (fst r)"
  shows "snd r = wrap (Do env (Timeout (parseOptions (defaults env) s))
                          (DisableKeepAlives (parseOptions (defaults env) s)) req)"
proof -
  from d sub obtain m s' where r: "r = request env m u s'"
    and same: "same_settings (parseOptions (defaults env) s') (parseOptions (defaults env) s)"
    unfolding dispatched_def using early_no_events by blast
  show ?thesis
  proof (cases rule: request_cases [of env m u s'])
    case conflict
    with r sub show ?thesis by simp
  next
    case (send u')
    with r sub have "snd r = wrap (Do env (Timeout (parseOptions (defaults env) s'))
        (DisableKeepAlives (parseOptions (defaults env) s')) req)"
      using request_send_submitted by metis
    with same show ?thesis by (simp add: same_settings_def)
  qed
qed

lemma example_get:
  "Get (example_env a) ''http://h/'' [] =
     ([Constructed \<lparr>Method = MethodGet, URL = ''http://h/'', Header = [], ReqBody = None\<rparr>,
       Submitted \<lparr>Method = MethodGet, URL = ''http://h/'', Header = [], ReqBody = None\<rparr>], wrap a)"
  by (simp add: Get_def request_def parseOptions_def example_env_def example_defaults_def
      len_def request_send_def NewRequest_def fill_request_def entries_def ranged_def)

section \<open>Status classification and transport failure\<close>

text \<open>
  Claim C1. Take any call of a verb that submitted a request to the transport, and let
  the round trip of that request (under the timeout and keep-alive settings of the
  call's Option Set) complete with a response. If the status code lies in the inclusive
  range 200 to 226, the call returns the wrapper of that response and a nil error;
  for every other status code it returns the wrapper of that response, a non-nil
  response, and the error \<^verbatim>\<open>errors.New(rsp.Status)\<close>, whose message is the status line.
  The wrapper holds the transport's response itself, so its headers are the original
  ones.
\<close>

theorem C1_status_classification:
  assumes "Submitted req \<in> set (fst (call env v u s))"
    and "Do env (Timeout (parseOptions (defaults env) s))
            (DisableKeepAlives (parseOptions (defaults env) s)) req = Inr (Some resp)"
  shows "snd (call env v u s) =
           Return (Some (Response resp))
             (if 200 \<le> StatusCode resp \<and> StatusCode resp \<le> 226 then None
              else Some (ErrorsNew (Status resp)))"
proof -
  have "snd (call env v u s) = wrap (Inr (Some resp))"
    using dispatched_submitted [OF dispatched_call assms(1)] assms(2) by simp
  then show ?thesis by (auto simp: wrap_def Let_def)
qed

text \<open>A \<^verbatim>\<open>GET\<close> answered with status 404: the response comes back with its headers,
  beside the error \<^verbatim>\<open>404 Not Found\<close>.\<close>

theorem C1_status_classification_witness:
  "Submitted \<lparr>Method = MethodGet, URL = ''http://h/'', Header = [], ReqBody = None\<rparr>
     \<in> set (fst (call (example_env (Inr (Some (example_response 404 ''404 Not Found''))))
                  VGet ''http://h/'' []))
   \<and> snd (call (example_env (Inr (Some (example_response 404 ''404 Not Found''))))
            VGet ''http://h/'' []) =
       Return (Some (Response (example_response 404 ''404 Not Found'')))
         (Some (ErrorsNew ''404 Not Found''))
   \<and> RspHeader (rsp (Response (example_response 404 ''404 Not Found'')))
       = [(''Server'', [''example''])]"
proof -
  let ?env = "example_env (Inr (Some (example_response 404 ''404 Not Found'')))"
  let ?req = "\<lparr>Method = MethodGet, URL = ''http://h/'', Header = [], ReqBody = None\<rparr>"
  have h1: "Submitted ?req \<in> set (fst (call ?env VGet ''http://h/'' []))"
    by (simp add: example_get)
  have h2: "Do ?env (Timeout (parseOptions (defaults ?env) []))
              (DisableKeepAlives (parseOptions (defaults ?env) [])) ?req
            = Inr (Some (example_response 404 ''404 Not Found''))"
    by (simp add: example_env_def)
  show ?thesis
    using h1 C1_status_classification [OF h1 h2] by (simp add: example_response_def)
qed

text \<open>
  Claim C8. Take any call of a verb that submitted a request to the transport, and let
  the round trip of that request fail with an error. Then the call returns a nil
  response and that error, as the transport gave it.
\<close>

theorem C8_transport_failure:
  assumes "Submitted req \<in> set (fst (call env v u s))"
    and "Do env (Timeout (parseOptions (defaults env) s))
            (DisableKeepAlives (parseOptions (defaults env) s)) req = Inl msg"
  shows "snd (call env v u s) = Return None (Some (DoError msg))"
  using dispatched_submitted [OF dispatched_call assms(1)] assms(2) by (simp add: wrap_def)

theorem C8_transport_failure_witness:
  "Submitted \<lparr>Method = MethodGet, URL = ''http://h/'', Header = [], ReqBody = None\<rparr>
     \<in> set (fst (call (example_env (Inl ''dial tcp: connection refused'')) VGet ''http://h/'' []))
   \<and> snd (call (example_env (Inl ''dial tcp: connection refused'')) VGet ''http://h/'' []) =
       Return None (Some (DoError ''dial tcp: connection refused''))"
proof -
  let ?env = "example_env (Inl ''dial tcp: connection refused'')"
  let ?req = "\<lparr>Method = MethodGet, URL = ''http://h/'', Header = [], ReqBody = None\<rparr>"
  have h1: "Submitted ?req \<in> set (fst (call ?env VGet ''http://h/'' []))"
    by (simp add: example_get)
  have h2: "Do ?env (Timeout (parseOptions (defaults ?env) []))
              (DisableKeepAlives (parseOptions (defaults ?env) [])) ?req
            = Inl ''dial tcp: connection refused''"
    by (simp add: example_env_def)
  show ?thesis
    using h1 C8_transport_failure [OF h1 h2] by simp
qed

section \<open>Basic credentials\<close>

lemma canon_auth: "CanonicalMIMEHeaderKey ''Authorization'' = ''Authorization''"
  by code_simp

lemma map_of_Header_Set:
  "map_of (Header_Set k x h) (CanonicalMIMEHeaderKey k) = Some [x]"
  by (simp add: Header_Set_def update_conv')

lemma distinct_Header_Set:
  "distinct (map fst h) \<Longrightarrow> distinct (map fst (Header_Set k x h))"
  by (simp add: Header_Set_def distinct_update)

lemma distinct_fill_headers:
  "distinct (map fst h) \<Longrightarrow>
   distinct (map fst (foldl (\<lambda>h (k, v). Header_Set k v h) h es))"
  by (induction es arbitrary: h) (auto simp: distinct_Header_Set)

lemma fill_request_distinct:
  "distinct (map fst (Header req0)) \<Longrightarrow> distinct (map fst (Header (fill_request env opts req0)))"
  by (simp add: fill_request_def Let_def SetBasicAuth_def distinct_Header_Set distinct_fill_headers)

lemma fill_request_auth:
  assumes "authType (Auth opts) = HTTPBasicAuth"
  shows "map_of (Header (fill_request env opts req0)) ''Authorization'' =
         Some [''Basic '' @ basicAuth (username (Auth opts)) (password (Auth opts))]"
  using assms map_of_Header_Set [of "''Authorization''"]
  by (simp add: fill_request_def Let_def SetBasicAuth_def canon_auth)

lemma NewRequest_Header: "NewRequest env m u b = NewRequest_ok req0 \<Longrightarrow> Header req0 = []"
  by (auto simp: NewRequest_def split: option.splits reader.splits)

lemma request_send_filled:
  assumes "Submitted req \<in> set (fst (request_send env opts m u))"
  obtains req0 where "req = fill_request env opts req0" "Header req0 = []"
  using assms by (cases rule: request_send_cases [of env opts m u]) (auto dest: NewRequest_Header)

lemma of_char_le: "(c \<le> d) = (of_char c \<le> (of_char d :: nat))"
  by (simp add: less_eq_char_def)

lemma canonical_idem: "canonical b (canonical b s) = canonical b s"
proof (induction s arbitrary: b)
  case Nil
  then show ?case by simp
next
  case (Cons c s)
  show ?case
    apply (simp add: Let_def Cons.IH isLower_def isUpper_def of_char_le)
    apply (auto simp: Cons.IH)
    done
qed


lemma to_upper_valid: "isLower c \<Longrightarrow> validHeaderFieldByte (char_of (of_char c - (32::nat)))"
proof -
  define n :: nat where "n = of_char c"
  assume "isLower c"
  then have "97 \<le> n \<and> n \<le> 122"
    by (simp add: isLower_def of_char_le n_def)
  then have "(n - 32) mod 256 = n - 32 \<and> 65 \<le> n - 32 \<and> n - 32 \<le> 90"
    by auto
  then have "isUpper (char_of (of_char c - (32::nat)))"
    by (simp add: isUpper_def of_char_le n_def)
  then show ?thesis by (simp add: validHeaderFieldByte_def)
qed

lemma to_lower_valid: "isUpper c \<Longrightarrow> validHeaderFieldByte (char_of (of_char c + (32::nat)))"
proof -
  assume "isUpper c"
  then have "isLower (char_of (of_char c + (32::nat)))"
    by (simp add: isLower_def isUpper_def of_char_le)
  then show ?thesis by (simp add: validHeaderFieldByte_def)
qed

lemma canonical_valid:
  "list_all validHeaderFieldByte s \<Longrightarrow> list_all validHeaderFieldByte (canonical b s)"
  by (induction s arbitrary: b) (simp_all add: Let_def to_upper_valid to_lower_valid)

lemma Canonical_idem:
  "CanonicalMIMEHeaderKey (CanonicalMIMEHeaderKey k) = CanonicalMIMEHeaderKey k"
  by (simp add: CanonicalMIMEHeaderKey_def canonical_valid canonical_idem)

lemma canonical_keys_Set: "canonical_keys h \<Longrightarrow> canonical_keys (Header_Set k x h)"
  by (auto simp: canonical_keys_def Header_Set_def dom_update Canonical_idem)

lemma canonical_keys_fold:
  "canonical_keys h \<Longrightarrow> canonical_keys (foldl (\<lambda>h (k, v). Header_Set k v h) h es)"
  by (induction es arbitrary: h) (auto simp: canonical_keys_Set)

lemma fill_request_canonical:
  "canonical_keys (Header req0) \<Longrightarrow> canonical_keys (Header (fill_request env opts req0))"
  by (simp add: fill_request_def Let_def SetBasicAuth_def canonical_keys_Set canonical_keys_fold)


lemma dispatched_filled:
  fixes env :: "('d, 'j) env"
  assumes d: "dispatched env s u r" and sub: "Submitted req \<in> set (fst r)"
  obtains opts' :: "('d, 'j) Options" and req0 where
    "req = fill_request env opts' req0" "Header req0 = []"
    "Auth opts' = Auth (parseOptions (defaults env) s)"
proof -
  from d sub obtain m s' where r: "r = request env m u s'"
    and same: "same_settings (parseOptions (defaults env) s') (parseOptions (defaults env) s)"
    unfolding dispatched_def using early_no_events by blast
  show ?thesis
  proof (cases rule: request_cases [of env m u s'])
    case conflict
    with r sub show ?thesis by simp
  next
    case (send u')
    with r sub obtain req0 where "req = fill_request env (parseOptions (defaults env) s') req0"
      "Header req0 = []"
      using request_send_filled by metis
    with same that [of "parseOptions (defaults env) s'" req0] show ?thesis
      by (simp add: same_settings_def)
  qed
qed

lemma b64_alice: "basicAuth ''alice'' ''secret'' = ''YWxpY2U6c2VjcmV0''"
  by code_simp

lemma canon_lower_auth: "CanonicalMIMEHeaderKey ''authorization'' = ''Authorization''"
  by code_simp

lemma example_get_auth:
  "Get (example_env a) ''http://h/''
     [Headers_opt (Some [(''authorization'', ''Bearer t'')]),
      Auth_opt \<lparr>authType = HTTPBasicAuth, username = ''alice'', password = ''secret''\<rparr>] =
     ([Constructed \<lparr>Method = MethodGet, URL = ''http://h/'', Header = [], ReqBody = None\<rparr>,
       Submitted \<lparr>Method = MethodGet, URL = ''http://h/'',
                  Header = [(''Authorization'', [''Basic YWxpY2U6c2VjcmV0''])], ReqBody = None\<rparr>],
      wrap a)"
  by (simp add: Get_def request_def parseOptions_def example_env_def example_defaults_def
      len_def request_send_def NewRequest_def fill_request_def entries_def ranged_def SetBasicAuth_def
      Header_Set_def canon_lower_auth canon_auth b64_alice)

text \<open>
  Claim C5. Take any call of a verb whose Option Set has Basic credentials, and any
  request it submitted to the transport. The header of that request maps
  \<^verbatim>\<open>Authorization\<close> to the one value \<^verbatim>\<open>Basic\<close>, a space, and the base64 encoding of
  \<^verbatim>\<open>username:password\<close>. The header is a map whose keys are all canonical, so no
  \<^verbatim>\<open>Authorization\<close> entry of the caller's headers, under any spelling, is left beside
  it. For the credentials alice and secret the value is \<^verbatim>\<open>Basic YWxpY2U6c2VjcmV0\<close>.
\<close>

theorem C5_basic_auth:
  fixes env :: "('d, 'j) env"
  assumes "Submitted req \<in> set (fst (call env v u s))"
    and "authType (Auth (parseOptions (defaults env) s)) = HTTPBasicAuth"
  shows "map_of (Header req) ''Authorization'' =
           Some [''Basic '' @ EncodeToString (username (Auth (parseOptions (defaults env) s))
                                              @ '':'' @ password (Auth (parseOptions (defaults env) s)))]
         \<and> distinct (map fst (Header req)) \<and> canonical_keys (Header req)
         \<and> (username (Auth (parseOptions (defaults env) s)) = ''alice''
              \<and> password (Auth (parseOptions (defaults env) s)) = ''secret''
            \<longrightarrow> map_of (Header req) ''Authorization'' = Some [''Basic YWxpY2U6c2VjcmV0''])"
proof -
  let ?A = "Auth (parseOptions (defaults env) s)"
  from dispatched_call assms(1) obtain opts' :: "('d, 'j) Options" and req0 where
    req: "req = fill_request env opts' req0" and h0: "Header req0 = []" and A: "Auth opts' = ?A"
    by (rule dispatched_filled)
  have 1: "map_of (Header req) ''Authorization'' =
      Some [''Basic '' @ basicAuth (username ?A) (password ?A)]"
    using fill_request_auth [of opts' env req0] assms(2) req A by simp
  have 2: "distinct (map fst (Header req))"
    using fill_request_distinct [of req0 env opts'] h0 req by simp
  have 3: "canonical_keys (Header req)"
    using fill_request_canonical [of req0 env opts'] h0 req by (simp add: canonical_keys_def)
  from 1 have 4: "username ?A = ''alice'' \<and> password ?A = ''secret'' \<longrightarrow>
      map_of (Header req) ''Authorization'' = Some [''Basic YWxpY2U6c2VjcmV0'']"
    using b64_alice by simp
  from 1 2 3 4 show ?thesis by (simp add: basicAuth_def)
qed

text \<open>A \<^verbatim>\<open>GET\<close> with the credentials alice and secret whose caller also supplied an
  \<^verbatim>\<open>authorization\<close> header.\<close>

theorem C5_basic_auth_witness:
  "Submitted \<lparr>Method = MethodGet, URL = ''http://h/'',
              Header = [(''Authorization'', [''Basic YWxpY2U6c2VjcmV0''])], ReqBody = None\<rparr>
     \<in> set (fst (call (example_env (Inr None)) VGet ''http://h/''
                  [Headers_opt (Some [(''authorization'', ''Bearer t'')]),
                   Auth_opt \<lparr>authType = HTTPBasicAuth, username = ''alice'',
                             password = ''secret''\<rparr>]))
   \<and> map_of (Header \<lparr>Method = MethodGet, URL = ''http://h/'',
                       Header = [(''Authorization'', [''Basic YWxpY2U6c2VjcmV0''])],
                       ReqBody = None\<rparr>) ''Authorization''
       = Some [''Basic YWxpY2U6c2VjcmV0'']"
proof -
  let ?env = "example_env (Inr None) :: (string, string) env"
  let ?s = "[Headers_opt (Some [(''authorization'', ''Bearer t'')]),
             Auth_opt \<lparr>authType = HTTPBasicAuth, username = ''alice'', password = ''secret''\<rparr>]
            :: (string, string) Setter list"
  let ?h = "[(''Authorization'', [''Basic YWxpY2U6c2VjcmV0''])]"
  let ?req = "\<lparr>Method = MethodGet, URL = ''http://h/'', Header = ?h, ReqBody = None\<rparr>"
  have h1: "Submitted ?req \<in> set (fst (call ?env VGet ''http://h/'' ?s))"
    by (simp add: example_get_auth)
  have h2: "authType (Auth (parseOptions (defaults ?env) ?s)) = HTTPBasicAuth"
    by (simp add: parseOptions_def)
  have h3: "username (Auth (parseOptions (defaults ?env) ?s)) = ''alice''
            \<and> password (Auth (parseOptions (defaults ?env) ?s)) = ''secret''"
    by (simp add: parseOptions_def)
  have "username (Auth (parseOptions (defaults ?env) ?s)) = ''alice''
        \<and> password (Auth (parseOptions (defaults ?env) ?s)) = ''secret''
        \<longrightarrow> map_of (Header ?req) ''Authorization'' = Some [''Basic YWxpY2U6c2VjcmV0'']"
    using C5_basic_auth [OF h1 h2] by (elim conjE)
  from this h3 have "map_of (Header ?req) ''Authorization'' = Some [''Basic YWxpY2U6c2VjcmV0'']"
    by (rule mp)
  with h1 show ?thesis by (intro conjI)
qed

section \<open>Encoding failure\<close>

lemma requestJSON_fail:
  assumes "JSON (parseOptions (defaults env) s) = Some j" "Marshal env j = Inl msg"
  shows "requestJSON env m u s = ([], Return None (Some (MarshalError msg)))"
  using assms by (simp add: requestJSON_def Let_def)

lemma copy_files_fail:
  assumes "e \<in> set fs" "ReadErr (snd e) \<noteq> None"
  shows "\<exists>e' msg. e' \<in> set fs \<and> ReadErr (snd e') = Some msg \<and> copy_files fs w = Inl (CopyError msg)"
  using assms
proof (induction fs arbitrary: w)
  case Nil
  then show ?case by simp
next
  case (Cons x fs)
  obtain field fh where x: "x = (field, fh)" by (cases x)
  show ?case
  proof (cases "ReadErr fh")
    case (Some msg)
    then have "copy_files (x # fs) w = Inl (CopyError msg)"
      by (simp add: x Let_def)
    with Some x show ?thesis by auto
  next
    case None
    with Cons.prems x have "e \<in> set fs" by auto
    from Cons.IH [OF this Cons.prems(2)] obtain e' msg where
      "e' \<in> set fs" "ReadErr (snd e') = Some msg"
      "copy_files fs (Write (Content fh) (CreateFormFile field (Name fh) w)) = Inl (CopyError msg)"
      by blast
    with None x show ?thesis
      by (intro exI [of _ e'] exI [of _ msg]) (simp add: Let_def)
  qed
qed

lemma requestFiles_fail:
  assumes "copy_files (entries (Files (parseOptions (defaults env) s)))
             (NewWriter (randomBoundary env)) = Inl err"
  shows "requestFiles env m u s = ([], Return None (Some err))"
  using assms by (simp add: requestFiles_def Let_def)

lemma call_json:
  assumes "v \<noteq> VGet" "Data (parseOptions (defaults env) s) = None"
    "Form (parseOptions (defaults env) s) = None" "JSON (parseOptions (defaults env) s) = Some j"
  shows "call env v u s =
     requestJSON env (case v of VPost \<Rightarrow> MethodPost | VPut \<Rightarrow> MethodPut
                      | VPatch \<Rightarrow> MethodPatch | VDelete \<Rightarrow> MethodDelete | VGet \<Rightarrow> MethodGet) u s"
  using assms by (cases v) (simp_all add: Post_def Put_def Patch_def Delete_def Let_def)

lemma post_files:
  assumes "Data (parseOptions (defaults env) s) = None"
    "Form (parseOptions (defaults env) s) = None" "JSON (parseOptions (defaults env) s) = None"
    "Files (parseOptions (defaults env) s) = Some fs"
  shows "Post env u s = requestFiles env MethodPost u s"
  using assms by (simp add: Post_def Let_def)

text \<open>
  Claim C6. When the json payload of a call does not marshal, \<open>requestJSON\<close> returns a
  nil response and the marshalling error and has constructed and submitted nothing; so
  does every \<open>Post\<close>, \<open>Put\<close>, \<open>Patch\<close> and \<open>Delete\<close> that encodes that payload (no data and
  no form payload is set). When the stream of one of the files fails, \<open>requestFiles\<close>
  returns a nil response and the read error of a failing source and has constructed and
  submitted nothing; so does every \<open>Post\<close> that encodes the files (no data, form or json
  payload is set).
\<close>

theorem C6_encoding_failure:
  fixes env :: "('d, 'j) env"
  shows
  "(JSON (parseOptions (defaults env) s) = Some j \<and> Marshal env j = Inl msg \<longrightarrow>
      requestJSON env m u s = ([], Return None (Some (MarshalError msg)))
      \<and> (v \<noteq> VGet \<and> Data (parseOptions (defaults env) s) = None
           \<and> Form (parseOptions (defaults env) s) = None \<longrightarrow>
         call env v u s = ([], Return None (Some (MarshalError msg)))))
   \<and> (Files (parseOptions (defaults env) s) = Some fs \<and> e \<in> set fs \<and> ReadErr (snd e) \<noteq> None \<longrightarrow>
      (\<exists>e' msg'. e' \<in> set fs \<and> ReadErr (snd e') = Some msg'
         \<and> requestFiles env m u s = ([], Return None (Some (CopyError msg')))
         \<and> (Data (parseOptions (defaults env) s) = None
              \<and> Form (parseOptions (defaults env) s) = None
              \<and> JSON (parseOptions (defaults env) s) = None \<longrightarrow>
            call env VPost u s = ([], Return None (Some (CopyError msg'))))))"
proof (intro conjI impI)
  assume a: "JSON (parseOptions (defaults env) s) = Some j \<and> Marshal env j = Inl msg"
  then show "requestJSON env m u s = ([], Return None (Some (MarshalError msg)))"
    by (simp add: requestJSON_fail)
  assume "v \<noteq> VGet \<and> Data (parseOptions (defaults env) s) = None
           \<and> Form (parseOptions (defaults env) s) = None"
  with a show "call env v u s = ([], Return None (Some (MarshalError msg)))"
    using call_json [of v env s j u] requestJSON_fail [of env s j msg] by simp
next
  assume a: "Files (parseOptions (defaults env) s) = Some fs \<and> e \<in> set fs \<and> ReadErr (snd e) \<noteq> None"
  then obtain e' msg' where e': "e' \<in> set fs" "ReadErr (snd e') = Some msg'"
    and c: "copy_files fs (NewWriter (randomBoundary env)) = Inl (CopyError msg')"
    using copy_files_fail [of e fs] by blast
  from a c have f: "requestFiles env m' u s = ([], Return None (Some (CopyError msg')))" for m'
    by (intro requestFiles_fail) (simp add: entries_def)
  have "Data (parseOptions (defaults env) s) = None
              \<and> Form (parseOptions (defaults env) s) = None
              \<and> JSON (parseOptions (defaults env) s) = None \<longrightarrow>
            call env VPost u s = ([], Return None (Some (CopyError msg')))"
    using a f [of MethodPost] post_files [of env s fs u] by simp
  with e' f show "\<exists>e' msg'. e' \<in> set fs \<and> ReadErr (snd e') = Some msg'
         \<and> requestFiles env m u s = ([], Return None (Some (CopyError msg')))
         \<and> (Data (parseOptions (defaults env) s) = None
              \<and> Form (parseOptions (defaults env) s) = None
              \<and> JSON (parseOptions (defaults env) s) = None \<longrightarrow>
            call env VPost u s = ([], Return None (Some (CopyError msg'))))"
    by blast
qed

text \<open>A \<^verbatim>\<open>POST\<close> of a json payload that the marshaller refuses, and a \<^verbatim>\<open>POST\<close> of a file
  whose stream fails.\<close>

theorem C6_encoding_failure_witness:
  "JSON (parseOptions (defaults (example_env (Inr None))) [JSON_opt (Some ''chan'')]) = Some ''chan''
   \<and> Marshal (example_env (Inr None)) ''chan'' = Inl ''json: unsupported type''
   \<and> call (example_env (Inr None)) VPost ''http://h/'' [JSON_opt (Some ''chan'')]
       = ([], Return None (Some (MarshalError ''json: unsupported type'')))
   \<and> Files (parseOptions (defaults (example_env (Inr None)))
       [Files_opt (Some [(''f'', \<lparr>Name = ''a.txt'', Content = ''hi'', ReadErr = Some ''unexpected EOF''\<rparr>)])])
     = Some [(''f'', \<lparr>Name = ''a.txt'', Content = ''hi'', ReadErr = Some ''unexpected EOF''\<rparr>)]
   \<and> call (example_env (Inr None)) VPost ''http://h/''
       [Files_opt (Some [(''f'', \<lparr>Name = ''a.txt'', Content = ''hi'', ReadErr = Some ''unexpected EOF''\<rparr>)])]
       = ([], Return None (Some (CopyError ''unexpected EOF'')))"
proof -
  let ?env = "example_env (Inr None) :: (string, string) env"
  let ?s = "[JSON_opt (Some ''chan'')] :: (string, string) Setter list"
  let ?opts = "parseOptions (defaults ?env) ?s"
  have h1: "JSON ?opts = Some ''chan'' \<and> Marshal ?env ''chan'' = Inl ''json: unsupported type''"
    by (simp add: parseOptions_def example_env_def)
  have h2: "VPost \<noteq> VGet \<and> Data ?opts = None \<and> Form ?opts = None"
    by (simp add: parseOptions_def example_env_def example_defaults_def)
  have "JSON ?opts = Some ''chan'' \<and> Marshal ?env ''chan'' = Inl ''json: unsupported type'' \<longrightarrow>
      requestJSON ?env MethodPost ''http://h/'' ?s
        = ([], Return None (Some (MarshalError ''json: unsupported type'')))
      \<and> (VPost \<noteq> VGet \<and> Data ?opts = None \<and> Form ?opts = None \<longrightarrow>
         call ?env VPost ''http://h/'' ?s
           = ([], Return None (Some (MarshalError ''json: unsupported type''))))"
    by (rule conjunct1 [OF C6_encoding_failure
          [where env = ?env and s = ?s and j = "''chan''" and msg = "''json: unsupported type''"
             and m = MethodPost and u = "''http://h/''" and v = VPost and fs = "[]"
             and e = "(''f'', \<lparr>Name = [], Content = [], ReadErr = None\<rparr>)"]])
  from this h1 have "requestJSON ?env MethodPost ''http://h/'' ?s
        = ([], Return None (Some (MarshalError ''json: unsupported type'')))
      \<and> (VPost \<noteq> VGet \<and> Data ?opts = None \<and> Form ?opts = None \<longrightarrow>
         call ?env VPost ''http://h/'' ?s
           = ([], Return None (Some (MarshalError ''json: unsupported type''))))"
    by (rule mp)
  then have "VPost \<noteq> VGet \<and> Data ?opts = None \<and> Form ?opts = None \<longrightarrow>
         call ?env VPost ''http://h/'' ?s
           = ([], Return None (Some (MarshalError ''json: unsupported type'')))"
    by (rule conjunct2)
  from this h2 have cj: "call ?env VPost ''http://h/'' ?s
           = ([], Return None (Some (MarshalError ''json: unsupported type'')))"
    by (rule mp)
  let ?f = "(''f'', \<lparr>Name = ''a.txt'', Content = ''hi'', ReadErr = Some ''unexpected EOF''\<rparr>)"
  let ?t = "[Files_opt (Some [?f])] :: (string, string) Setter list"
  let ?topts = "parseOptions (defaults ?env) ?t"
  have f0: "Files ?topts = Some [?f]"
    by (simp add: parseOptions_def)
  have f1: "Files ?topts = Some [?f] \<and> ?f \<in> set [?f] \<and> ReadErr (snd ?f) \<noteq> None"
    by (simp add: parseOptions_def)
  have f2: "Data ?topts = None \<and> Form ?topts = None \<and> JSON ?topts = None"
    by (simp add: parseOptions_def example_env_def example_defaults_def)
  have "Files ?topts = Some [?f] \<and> ?f \<in> set [?f] \<and> ReadErr (snd ?f) \<noteq> None \<longrightarrow>
      (\<exists>e' msg'. e' \<in> set [?f] \<and> ReadErr (snd e') = Some msg'
         \<and> requestFiles ?env MethodPost ''http://h/'' ?t = ([], Return None (Some (CopyError msg')))
         \<and> (Data ?topts = None \<and> Form ?topts = None \<and> JSON ?topts = None \<longrightarrow>
            call ?env VPost ''http://h/'' ?t = ([], Return None (Some (CopyError msg')))))"
    by (rule conjunct2 [OF C6_encoding_failure
          [where env = ?env and s = ?t and j = "''chan''" and msg = "''json: unsupported type''"
             and m = MethodPost and u = "''http://h/''" and v = VPost and fs = "[?f]"
             and e = ?f]])
  from this f1 obtain e' msg' where m: "e' \<in> set [?f]" "ReadErr (snd e') = Some msg'"
    and c: "Data ?topts = None \<and> Form ?topts = None \<and> JSON ?topts = None \<longrightarrow>
            call ?env VPost ''http://h/'' ?t = ([], Return None (Some (CopyError msg')))"
    by blast
  from m have "msg' = ''unexpected EOF''" by simp
  with c f2 have cf: "call ?env VPost ''http://h/'' ?t
       = ([], Return None (Some (CopyError ''unexpected EOF'')))"
    by blast
  have a1: "JSON ?opts = Some ''chan''" using h1 by (rule conjunct1)
  have a2: "Marshal ?env ''chan'' = Inl ''json: unsupported type''" using h1 by (rule conjunct2)
  from a1 a2 cj f0 cf show ?thesis by (intro conjI)
qed

section \<open>Selection of the body encoder\<close>

lemma canon_content_type: "CanonicalMIMEHeaderKey ''Content-Type'' = ''Content-Type''"
  by code_simp

lemma example_no_body:
  "request (example_env a) m ''http://h/'' [Files_opt (Some [(''f'', example_file)])] =
     ([Constructed \<lparr>Method = m, URL = ''http://h/'', Header = [], ReqBody = None\<rparr>,
       Submitted \<lparr>Method = m, URL = ''http://h/'', Header = [], ReqBody = None\<rparr>], wrap a)"
  by (simp add: request_def parseOptions_def example_env_def example_defaults_def
      len_def request_send_def NewRequest_def fill_request_def entries_def ranged_def store_def)

lemma example_content_type:
  "FormDataContentType (Write ''hi'' (CreateFormFile ''f'' ''a.txt'' (NewWriter ''b0'')))
   = ''multipart/form-data; boundary=b0''"
  by (simp add: FormDataContentType_def Write_def CreateFormFile_def CreatePart_def NewWriter_def)

lemma example_post_files:
  "Post (example_env a) ''http://h/'' [Files_opt (Some [(''f'', example_file)])] =
     ([Constructed \<lparr>Method = MethodPost, URL = ''http://h/'', Header = [],
         ReqBody = Some (buf (Close (Write ''hi'' (CreateFormFile ''f'' ''a.txt'' (NewWriter ''b0'')))))\<rparr>,
       Submitted \<lparr>Method = MethodPost, URL = ''http://h/'',
         Header = [(''Content-Type'', [''multipart/form-data; boundary=b0''])],
         ReqBody = Some (buf (Close (Write ''hi'' (CreateFormFile ''f'' ''a.txt'' (NewWriter ''b0'')))))\<rparr>],
      wrap a)"
  by (simp add: Post_def requestFiles_def request_def parseOptions_def example_env_def
      example_defaults_def len_def request_send_def NewRequest_def fill_request_def entries_def ranged_def store_def
      Header_Set_def canon_content_type example_content_type example_file_def Let_def)

lemma files_not_encoded:
  assumes "v = VPut \<or> v = VPatch \<or> v = VDelete"
    and "Data (parseOptions (defaults env) s) = None"
    and "Form (parseOptions (defaults env) s) = None"
    and "JSON (parseOptions (defaults env) s) = None"
  shows "call env v u s =
           request env (if v = VPut then MethodPut else if v = VPatch then MethodPatch
                        else MethodDelete) u s"
  using assms by (auto simp: Put_def Patch_def Delete_def Let_def)

text \<open>
  Claim C2 says that \<open>Post\<close>, \<open>Put\<close>, \<open>Patch\<close> and \<open>Delete\<close> all select the body encoder in
  the order data, form, json, files, none. \<open>Post\<close> does; \<open>Put\<close>, \<open>Patch\<close> and \<open>Delete\<close> have
  no branch for the files payload and go from json straight to no body. With a files
  payload as the only payload field, \<open>Put\<close>, \<open>Patch\<close> and \<open>Delete\<close> submit a request with
  no body and no \<^verbatim>\<open>Content-Type\<close>, where \<open>Post\<close> submits the multipart message.
\<close>

theorem C2_files_ignored:
  "Put (example_env (Inr None)) ''http://h/'' [Files_opt (Some [(''f'', example_file)])] =
     ([Constructed \<lparr>Method = MethodPut, URL = ''http://h/'', Header = [], ReqBody = None\<rparr>,
       Submitted \<lparr>Method = MethodPut, URL = ''http://h/'', Header = [], ReqBody = None\<rparr>],
      Return None (Some (ErrorsNew ''response is nil'')))
   \<and> Patch (example_env (Inr None)) ''http://h/'' [Files_opt (Some [(''f'', example_file)])] =
     ([Constructed \<lparr>Method = MethodPatch, URL = ''http://h/'', Header = [], ReqBody = None\<rparr>,
       Submitted \<lparr>Method = MethodPatch, URL = ''http://h/'', Header = [], ReqBody = None\<rparr>],
      Return None (Some (ErrorsNew ''response is nil'')))
   \<and> Delete (example_env (Inr None)) ''http://h/'' [Files_opt (Some [(''f'', example_file)])] =
     ([Constructed \<lparr>Method = MethodDelete, URL = ''http://h/'', Header = [], ReqBody = None\<rparr>,
       Submitted \<lparr>Method = MethodDelete, URL = ''http://h/'', Header = [], ReqBody = None\<rparr>],
      Return None (Some (ErrorsNew ''response is nil'')))
   \<and> Post (example_env (Inr None)) ''http://h/'' [Files_opt (Some [(''f'', example_file)])] =
     ([Constructed \<lparr>Method = MethodPost, URL = ''http://h/'', Header = [],
         ReqBody = Some (buf (Close (Write ''hi'' (CreateFormFile ''f'' ''a.txt'' (NewWriter ''b0'')))))\<rparr>,
       Submitted \<lparr>Method = MethodPost, URL = ''http://h/'',
         Header = [(''Content-Type'', [''multipart/form-data; boundary=b0''])],
         ReqBody = Some (buf (Close (Write ''hi'' (CreateFormFile ''f'' ''a.txt'' (NewWriter ''b0'')))))\<rparr>],
      Return None (Some (ErrorsNew ''response is nil'')))"
proof -
  have o: "Data (parseOptions (defaults (example_env (Inr None)))
              [Files_opt (Some [(''f'', example_file)])]) = None
      \<and> Form (parseOptions (defaults (example_env (Inr None)))
              [Files_opt (Some [(''f'', example_file)])]) = None
      \<and> JSON (parseOptions (defaults (example_env (Inr None)))
              [Files_opt (Some [(''f'', example_file)])]) = None"
    by (simp add: parseOptions_def example_env_def example_defaults_def)
  have w: "wrap (Inr None) = Return None (Some (ErrorsNew ''response is nil''))"
    by (simp add: wrap_def)
  show ?thesis
    by (simp add: Put_def Patch_def Delete_def o example_no_body example_post_files w)
qed

section \<open>Conflicting query parameters\<close>

lemma request_conflict:
  "conflicting env s u \<Longrightarrow> request env m u s = ([], Return None (Some params_conflict))"
  by (simp add: request_def conflicting_def)

lemma conflicting_encoder:
  "conflicting env (s @ [Headers_opt h] @ [Body_opt b]) u = conflicting env s u"
  "conflicting env (s @ [Body_opt b]) u = conflicting env s u"
  by (simp_all add: conflicting_def parseOptions_append)

lemma requestData_conflict:
  "conflicting env s u \<Longrightarrow> requestData env m u s = ([], Return None (Some params_conflict))"
  unfolding requestData_def Let_def by (rule request_conflict) (simp add: conflicting_encoder)

lemma requestForm_conflict:
  assumes "conflicting env s u" "Headers (parseOptions (defaults env) s) = Some h"
  shows "requestForm env m u s = ([], Return None (Some params_conflict))"
proof -
  have "requestForm env m u s = request env m u
      (s @ [Headers_opt (Some (store ''Content-Type'' ''application/x-www-form-urlencoded'' h))]
         @ [Body_opt (Some (case Form (parseOptions (defaults env) s) of None \<Rightarrow> NilPointer
                            | Some form \<Rightarrow> Reader (Encode (add_all form))))])"
    using assms(2) by (simp add: requestForm_def Let_def)
  also have "\<dots> = ([], Return None (Some params_conflict))"
    using assms(1) by (intro request_conflict) (simp only: conflicting_encoder)
  finally show ?thesis .
qed

lemma requestJSON_conflict:
  assumes "conflicting env s u" "Headers (parseOptions (defaults env) s) = Some h"
    and "\<And>j. JSON (parseOptions (defaults env) s) = Some j \<Longrightarrow> \<exists>b. Marshal env j = Inr b"
  shows "requestJSON env m u s = ([], Return None (Some params_conflict))"
proof -
  obtain body where "(case JSON (parseOptions (defaults env) s) of None \<Rightarrow> Inr NilPointer
               | Some j \<Rightarrow> (case Marshal env j of Inl msg \<Rightarrow> Inl (MarshalError msg)
                            | Inr reqBytes \<Rightarrow> Inr (Reader reqBytes))) = Inr body"
    using assms(3) by (cases "JSON (parseOptions (defaults env) s)") auto
  then have "requestJSON env m u s = request env m u
      (s @ [Headers_opt (Some (store ''Content-Type'' ''application/json'' h))]
         @ [Body_opt (Some body)])"
    using assms(2) by (simp add: requestJSON_def Let_def)
  also have "\<dots> = ([], Return None (Some params_conflict))"
    using assms(1) by (intro request_conflict) (simp only: conflicting_encoder)
  finally show ?thesis .
qed

lemma copy_files_ok:
  "\<forall>e \<in> set fs. ReadErr (snd e) = None \<Longrightarrow> \<exists>w'. copy_files fs w = Inr w'"
  by (induction fs arbitrary: w) (auto simp: Let_def)

lemma requestFiles_conflict:
  assumes "conflicting env s u" "Headers (parseOptions (defaults env) s) = Some h"
    and "\<forall>e \<in> set (entries (Files (parseOptions (defaults env) s))). ReadErr (snd e) = None"
  shows "requestFiles env m u s = ([], Return None (Some params_conflict))"
proof -
  obtain w where "copy_files (entries (Files (parseOptions (defaults env) s)))
                    (NewWriter (randomBoundary env)) = Inr w"
    using copy_files_ok [OF assms(3)] by blast
  then have "requestFiles env m u s = request env m u
      (s @ [Headers_opt (Some (store ''Content-Type'' (FormDataContentType w) h))]
         @ [Body_opt (Some (Reader (buf (Close w))))])"
    using assms(2) by (simp add: requestFiles_def Let_def)
  also have "\<dots> = ([], Return None (Some params_conflict))"
    using assms(1) by (intro request_conflict) (simp only: conflicting_encoder)
  finally show ?thesis .
qed

lemma dispatched_conflict:
  assumes "dispatched env s u r" "conflicting env s u"
  shows "early r"
proof -
  from assms(1) consider "early r" | m s' where "r = request env m u s'"
    "same_settings (parseOptions (defaults env) s') (parseOptions (defaults env) s)"
    unfolding dispatched_def by blast
  then show ?thesis
  proof cases
    case 1
    then show ?thesis .
  next
    case 2
    then have "conflicting env s' u"
      using assms(2) by (simp add: conflicting_def same_settings_def)
    then have "r = ([], Return None (Some params_conflict))"
      using 2(1) request_conflict by metis
    then show ?thesis by (simp add: early_def)
  qed
qed


lemma call_selected:
  "call env v u s =
     (case selected v (parseOptions (defaults env) s) of
        NoEncoder \<Rightarrow> request env (method_of v) u s
      | DataEncoder \<Rightarrow> requestData env (method_of v) u s
      | FormEncoder \<Rightarrow> requestForm env (method_of v) u s
      | JSONEncoder \<Rightarrow> requestJSON env (method_of v) u s
      | FilesEncoder \<Rightarrow> requestFiles env (method_of v) u s)"
  by (cases v) (simp_all add: selected_def Get_def Post_def Put_def Patch_def Delete_def Let_def)

lemma first_read_error_Some:
  "first_read_error fs = Some err \<Longrightarrow> copy_files fs w = Inl err"
proof (induction fs arbitrary: w)
  case Nil
  then show ?case by (simp add: first_read_error_def)
next
  case (Cons x fs)
  obtain field fh where x: "x = (field, fh)" by (cases x)
  show ?case
  proof (cases "ReadErr fh")
    case None
    with Cons.prems x have "first_read_error fs = Some err"
      by (simp add: first_read_error_def)
    from Cons.IH [OF this] None x show ?thesis by (simp add: Let_def)
  next
    case (Some msg)
    with Cons.prems x show ?thesis by (simp add: first_read_error_def Let_def)
  qed
qed

lemma first_read_error_None:
  "first_read_error fs = None \<Longrightarrow> \<forall>e \<in> set fs. ReadErr (snd e) = None"
proof (induction fs)
  case Nil
  then show ?case by simp
next
  case (Cons x fs)
  show ?case
  proof (cases "ReadErr (snd x)")
    case None
    with Cons.prems have "first_read_error fs = None"
      by (simp add: first_read_error_def)
    from Cons.IH [OF this] None show ?thesis by simp
  next
    case (Some msg)
    with Cons.prems show ?thesis by (simp add: first_read_error_def)
  qed
qed

lemma call_encoder_error:
  assumes "encoder_error env v (parseOptions (defaults env) s) = Some err"
  shows "call env v u s = ([], Return None (Some err))"
proof (cases "selected v (parseOptions (defaults env) s)")
  case JSONEncoder
  with assms obtain j msg where "JSON (parseOptions (defaults env) s) = Some j"
    "Marshal env j = Inl msg" "err = MarshalError msg"
    by (auto simp: encoder_error_def split: option.splits sum.splits)
  with JSONEncoder show ?thesis
    by (simp add: call_selected requestJSON_def Let_def)
next
  case FilesEncoder
  with assms have "copy_files (entries (Files (parseOptions (defaults env) s)))
      (NewWriter (randomBoundary env)) = Inl err"
    by (intro first_read_error_Some) (simp add: encoder_error_def)
  with FilesEncoder show ?thesis
    by (simp add: call_selected requestFiles_def Let_def)
next
  case NoEncoder
  with assms show ?thesis by (simp add: encoder_error_def)
next
  case DataEncoder
  with assms show ?thesis by (simp add: encoder_error_def)
next
  case FormEncoder
  with assms show ?thesis by (simp add: encoder_error_def)
qed

lemma call_conflict:
  fixes env :: "('d, 'j) env"
  assumes c: "conflicting env s u"
    and e: "encoder_error env v (parseOptions (defaults env) s) = None"
    and h: "writes_headers (selected v (parseOptions (defaults env) s)) \<longrightarrow>
            Headers (parseOptions (defaults env) s) \<noteq> None"
  shows "call env v u s = ([], Return None (Some params_conflict))"
proof (cases "selected v (parseOptions (defaults env) s)")
  case NoEncoder
  then show ?thesis by (simp add: call_selected request_conflict [OF c])
next
  case DataEncoder
  then show ?thesis by (simp add: call_selected requestData_conflict [OF c])
next
  case FormEncoder
  with h obtain hs where "Headers (parseOptions (defaults env) s) = Some hs"
    by (auto simp: writes_headers_def)
  with FormEncoder show ?thesis by (simp add: call_selected requestForm_conflict [OF c])
next
  case JSONEncoder
  with h obtain hs where hs: "Headers (parseOptions (defaults env) s) = Some hs"
    by (auto simp: writes_headers_def)
  have "\<exists>b. Marshal env j = Inr b" if "JSON (parseOptions (defaults env) s) = Some j" for j
    using e JSONEncoder that by (cases "Marshal env j") (simp_all add: encoder_error_def)
  with JSONEncoder hs show ?thesis
    by (simp add: call_selected requestJSON_conflict [OF c hs])
next
  case FilesEncoder
  with h obtain hs where hs: "Headers (parseOptions (defaults env) s) = Some hs"
    by (auto simp: writes_headers_def)
  have "\<forall>e \<in> set (entries (Files (parseOptions (defaults env) s))). ReadErr (snd e) = None"
    using e FilesEncoder by (intro first_read_error_None) (simp add: encoder_error_def)
  with FilesEncoder hs show ?thesis
    by (simp add: call_selected requestFiles_conflict [OF c hs])
qed

lemma example_post_json_conflict:
  "Post (example_env a) ''http://h/?a=1''
     [Params_opt (Some [(''k'', ''v'')]), JSON_opt (Some ''chan'')]
   = ([], Return None (Some (MarshalError ''json: unsupported type'')))"
  by (simp add: Post_def requestJSON_def parseOptions_def example_env_def example_defaults_def)

lemma example_post_form_conflict:
  "Post (example_env a) ''http://h/?a=1''
     [Params_opt (Some [(''k'', ''v'')]), Form_opt (Some [(''x'', ''y'')])]
   = ([], Return None (Some params_conflict))"
  by (simp add: Post_def requestForm_def request_def parseOptions_def example_env_def
      example_defaults_def len_def)

text \<open>
  Claim C3, as stated, fails: a \<^verbatim>\<open>POST\<close> with parameters, a URL holding a question
  mark and a json payload that does not marshal returns the marshalling error, since
  \<open>requestJSON\<close> marshals before it calls \<open>request\<close>, where the URL is checked.
\<close>

theorem C3_counterexample:
  "Params (parseOptions (defaults (example_env (Inr None)))
            [Params_opt (Some [(''k'', ''v'')]), JSON_opt (Some ''chan'')]) = Some [(''k'', ''v'')]
   \<and> CHR ''?'' \<in> set ''http://h/?a=1''
   \<and> call (example_env (Inr None)) VPost ''http://h/?a=1''
        [Params_opt (Some [(''k'', ''v'')]), JSON_opt (Some ''chan'')]
       = ([], Return None (Some (MarshalError ''json: unsupported type'')))
   \<and> MarshalError ''json: unsupported type'' \<noteq> params_conflict"
  by (simp add: example_post_json_conflict parseOptions_def params_conflict_def)

text \<open>
  Claim C3, amended. Take any call of a verb whose params mapping is non-empty and whose
  target URL contains a question mark. No request is constructed or submitted. When the
  body encoder that the verb selects returns an error before it reaches the dispatcher
  (the json encoder on a payload that does not marshal, the files encoder on a source
  that fails to read), the call returns a nil response and that error. Otherwise the
  call returns a nil response and the error for the conflict; the calls in which a
  selected form, json or files encoder meets a nil headers mapping are left aside.
\<close>

theorem C3_params_conflict:
  fixes env :: "('d, 'j) env"
  assumes "Params (parseOptions (defaults env) s) = Some ps" and "ps \<noteq> []"
    and "CHR ''?'' \<in> set u"
  shows "fst (call env v u s) = []
    \<and> (\<forall>err. encoder_error env v (parseOptions (defaults env) s) = Some err \<longrightarrow>
          call env v u s = ([], Return None (Some err)))
    \<and> (encoder_error env v (parseOptions (defaults env) s) = None
        \<and> (writes_headers (selected v (parseOptions (defaults env) s)) \<longrightarrow>
            Headers (parseOptions (defaults env) s) \<noteq> None) \<longrightarrow>
          call env v u s = ([], Return None (Some params_conflict)))"
proof -
  have c: "conflicting env s u"
    using assms by (simp add: conflicting_def len_def)
  have "early (call env v u s)"
    using dispatched_call c by (rule dispatched_conflict)
  then have 1: "fst (call env v u s) = []"
    by (simp add: early_def)
  from 1 call_encoder_error call_conflict [OF c] show ?thesis
    by blast
qed

text \<open>A \<^verbatim>\<open>POST\<close> of a form with parameters to a URL that holds a question mark.\<close>

theorem C3_params_conflict_witness:
  "Params (parseOptions (defaults (example_env (Inr None)))
            [Params_opt (Some [(''k'', ''v'')]), Form_opt (Some [(''x'', ''y'')])])
     = Some [(''k'', ''v'')]
   \<and> [(''k'', ''v'')] \<noteq> ([] :: gomap)
   \<and> CHR ''?'' \<in> set ''http://h/?a=1''
   \<and> encoder_error (example_env (Inr None)) VPost
        (parseOptions (defaults (example_env (Inr None)))
           [Params_opt (Some [(''k'', ''v'')]), Form_opt (Some [(''x'', ''y'')])]) = None
   \<and> call (example_env (Inr None)) VPost ''http://h/?a=1''
        [Params_opt (Some [(''k'', ''v'')]), Form_opt (Some [(''x'', ''y'')])]
       = ([], Return None (Some params_conflict))"
proof -
  let ?env = "example_env (Inr None) :: (string, string) env"
  let ?s = "[Params_opt (Some [(''k'', ''v'')]), Form_opt (Some [(''x'', ''y'')])]
            :: (string, string) Setter list"
  let ?opts = "parseOptions (defaults ?env) ?s"
  have h1: "Params ?opts = Some [(''k'', ''v'')]"
    by (simp add: parseOptions_def)
  have h2: "[(''k'', ''v'')] \<noteq> ([] :: gomap)"
    by simp
  have h3: "CHR ''?'' \<in> set ''http://h/?a=1''"
    by simp
  have h4: "encoder_error ?env VPost ?opts = None"
    by (simp add: encoder_error_def selected_def parseOptions_def example_env_def
        example_defaults_def)
  have h5: "writes_headers (selected VPost ?opts) \<longrightarrow> Headers ?opts \<noteq> None"
    by (simp add: parseOptions_def example_env_def example_defaults_def)
  have "encoder_error ?env VPost ?opts = None
        \<and> (writes_headers (selected VPost ?opts) \<longrightarrow> Headers ?opts \<noteq> None) \<longrightarrow>
          call ?env VPost ''http://h/?a=1'' ?s = ([], Return None (Some params_conflict))"
    using C3_params_conflict [OF h1 h2 h3, of VPost] by (elim conjE)
  from this conjI [OF h4 h5]
  have "call ?env VPost ''http://h/?a=1'' ?s = ([], Return None (Some params_conflict))"
    by (rule mp)
  with h1 h2 h3 h4 show ?thesis by (intro conjI)
qed

section \<open>The form payload comes before the json payload\<close>



lemma fill_request_ReqBody: "ReqBody (fill_request env opts req0) = ReqBody req0"
  by (simp add: fill_request_def Let_def SetBasicAuth_def)

lemma NewRequest_ReqBody:
  "NewRequest env m u (Some (Reader b)) = NewRequest_ok req0 \<Longrightarrow> ReqBody req0 = Some b"
  by (auto simp: NewRequest_def split: option.splits)

lemma request_submitted:
  fixes env :: "('d, 'j) env"
  assumes "Submitted req \<in> set (fst (request env m u s))"
  obtains req0 u' where "req = fill_request env (parseOptions (defaults env) s) req0"
    "NewRequest env m u' (Body (parseOptions (defaults env) s)) = NewRequest_ok req0"
proof (cases rule: request_cases [of env m u s])
  case conflict
  with assms show ?thesis by simp
next
  case (send u')
  show ?thesis
  proof (cases rule: request_send_cases [of env "parseOptions (defaults env) s" m u'])
    case panic
    with send assms show ?thesis by simp
  next
    case (refused err)
    with send assms show ?thesis by simp
  next
    case (sent req0)
    with send assms that [of req0 u'] show ?thesis by simp
  qed
qed












section \<open>The multipart body\<close>


lemma cut_short: "length s < length sep \<Longrightarrow> Cut sep s = None"
  by (induction s) auto

lemma take_butlast_append:
  assumes "sep \<noteq> []" "n \<le> length (a @ butlast sep)"
  shows "take n (a @ sep @ rest) = take n (a @ butlast sep)"
proof -
  have "a @ sep @ rest = (a @ butlast sep) @ (last sep # rest)"
    using assms(1) by simp
  moreover have "take n ((a @ butlast sep) @ (last sep # rest)) = take n (a @ butlast sep)"
    using assms(2) by (simp only: take_append) simp
  ultimately show ?thesis by (simp only:)
qed

lemma cut_first:
  assumes "sep \<noteq> []" "Cut sep (a @ butlast sep) = None"
  shows "Cut sep (a @ sep @ rest) = Some (a, rest)"
  using assms(2)
proof (induction a)
  case Nil
  from assms(1) obtain c s where "sep @ rest = c # s" by (cases sep) auto
  moreover have "take (length sep) (sep @ rest) = sep" "drop (length sep) (sep @ rest) = rest"
    by simp_all
  ultimately show ?case by (metis append_Nil Cut.simps(2))
next
  case (Cons x a)
  from Cons.prems have no: "take (length sep) (x # a @ butlast sep) \<noteq> sep"
    and rec: "Cut sep (a @ butlast sep) = None"
    by (auto split: if_splits)
  have "length sep \<le> length ((x # a) @ butlast sep)"
    by simp
  from take_butlast_append [OF assms(1) this, of rest] no
  have "take (length sep) (x # a @ sep @ rest) \<noteq> sep" by simp
  with Cons.IH [OF rec] show ?case by simp
qed

lemma cut_line:
  "CHR 0x0D \<notin> set l \<Longrightarrow> Cut line_break (l @ line_break @ z) = Some (l, z)"
  by (induction l) (auto simp: line_break_def)

lemma cut_delimiter_skip:
  assumes "CHR 0x0D \<notin> set l" "z = [] \<or> hd z \<noteq> CHR ''-''"
  shows "Cut (delimiter b) (l @ line_break @ z)
         = map_option (\<lambda>(a, r). (l @ line_break @ a, r)) (Cut (delimiter b) z)"
  using assms(1)
proof (induction l)
  case Nil
  from assms(2) show ?case
    by (cases z) (auto simp: delimiter_def line_break_def option.map_comp comp_def
        case_prod_beta option.map_ident)
next
  case (Cons x l)
  then have "x \<noteq> CHR 0x0D" by auto
  then have "take (length (delimiter b)) (x # l @ line_break @ z) \<noteq> delimiter b"
    by (auto simp: delimiter_def line_break_def)
  with Cons show ?case
    by (simp add: option.map_comp comp_def case_prod_beta)
qed


lemma CRLF_line_break: "CRLF = line_break"
  by (simp add: CRLF_def line_break_def)

lemma escapeQuotes_no_CR: "CHR 0x0D \<notin> set (escapeQuotes s)"
  by (induction s) auto

lemma read_quoted_escapeQuotes:
  "plain s \<Longrightarrow> read_quoted (escapeQuotes s @ CHR 0x22 # rest) = Some (s, rest)"
  by (induction s) (auto simp: plain_def)

lemma strip_prefix_append: "strip_prefix p (p @ v) = Some v"
  by (simp add: strip_prefix_def)

lemma read_disposition_written:
  assumes "plain f" "plain n"
  shows "read_disposition (''form-data; name='' @ [CHR 0x22] @ escapeQuotes f @ [CHR 0x22]
           @ ''; filename='' @ [CHR 0x22] @ escapeQuotes n @ [CHR 0x22]) = Some (f, n)"
proof -
  let ?r3 = "escapeQuotes n @ [CHR 0x22]"
  let ?r2 = "(''; filename='' @ [CHR 0x22]) @ ?r3"
  let ?r1 = "escapeQuotes f @ CHR 0x22 # ?r2"
  have 1: "strip_prefix (''form-data; name='' @ [CHR 0x22])
            ((''form-data; name='' @ [CHR 0x22]) @ ?r1) = Some ?r1"
    by (rule strip_prefix_append)
  have 2: "read_quoted ?r1 = Some (f, ?r2)"
    using assms(1) by (rule read_quoted_escapeQuotes)
  have 3: "strip_prefix (''; filename='' @ [CHR 0x22]) ?r2 = Some ?r3"
    by (rule strip_prefix_append)
  have 4: "read_quoted (escapeQuotes n @ CHR 0x22 # []) = Some (n, [])"
    using assms(2) by (rule read_quoted_escapeQuotes)
  have "read_disposition ((''form-data; name='' @ [CHR 0x22]) @ ?r1) = Some (f, n)"
    unfolding read_disposition_def using 4 by (simp only: 1 2 3 option.case prod.case) simp
  then show ?thesis by simp
qed


lemma header_lines_line:
  assumes "CHR 0x0D \<notin> set l" "l \<noteq> []"
  shows "header_lines (l @ line_break @ z)
         = map_option (\<lambda>(ls, content). (l # ls, content)) (header_lines z)"
  by (subst header_lines.simps) (simp add: cut_line [OF assms(1)] assms(2))

lemma header_lines_end: "header_lines (line_break @ z) = Some ([], z)"
  using cut_line [of "[]" z] by (subst header_lines.simps) simp


lemma part_text_lines:
  "part_text p = disposition_line p @ line_break @ type_line @ line_break @ line_break
                 @ part_content p"
  by (simp add: part_text_def disposition_line_def type_line_def CRLF_line_break)

lemma disposition_line_no_CR: "CHR 0x0D \<notin> set (disposition_line p)"
  by (simp add: disposition_line_def escapeQuotes_no_CR)

lemma type_line_no_CR: "CHR 0x0D \<notin> set type_line"
  by (simp add: type_line_def)

lemma header_lines_part_text:
  "header_lines (part_text p) = Some ([disposition_line p, type_line], part_content p)"
proof -
  have 1: "disposition_line p \<noteq> []" by (simp add: disposition_line_def)
  have 2: "type_line \<noteq> []" by (simp add: type_line_def)
  show ?thesis
    unfolding part_text_lines
    by (simp only: header_lines_line [OF disposition_line_no_CR 1]
        header_lines_line [OF type_line_no_CR 2] header_lines_end) simp
qed

lemma header_value_disposition:
  "header_value ''Content-Disposition'' [disposition_line p, type_line]
   = Some (''form-data; name='' @ [CHR 0x22] @ escapeQuotes (part_name p)
       @ [CHR 0x22] @ ''; filename='' @ [CHR 0x22] @ escapeQuotes (part_filename p)
       @ [CHR 0x22])"
proof -
  have "strip_prefix (''Content-Disposition'' @ '': '') (disposition_line p)
     = Some (''form-data; name='' @ [CHR 0x22] @ escapeQuotes (part_name p)
       @ [CHR 0x22] @ ''; filename='' @ [CHR 0x22] @ escapeQuotes (part_filename p)
       @ [CHR 0x22])"
    unfolding disposition_line_def
    using strip_prefix_append [of "''Content-Disposition: ''"] by simp
  then show ?thesis by (simp only: header_value.simps option.case)
qed

lemma read_part_text:
  assumes "plain (part_name p)" "plain (part_filename p)"
  shows "read_part (part_text p) = Some p"
  unfolding read_part_def
  by (simp only: header_lines_part_text header_value_disposition
      read_disposition_written [OF assms] option.case prod.case) simp


lemma delimiter_nonempty: "delimiter b \<noteq> []"
  by (simp add: delimiter_def line_break_def)

lemma part_text_delimiter_free:
  assumes "delimiter_free b (part_content p)"
  shows "Cut (delimiter b) (part_text p @ butlast (delimiter b)) = None"
proof -
  let ?z2 = "line_break @ part_content p @ butlast (delimiter b)"
  let ?z1 = "type_line @ line_break @ ?z2"
  have a: "?z1 = [] \<or> hd ?z1 \<noteq> CHR ''-''"
    by (simp add: type_line_def)
  have b: "?z2 = [] \<or> hd ?z2 \<noteq> CHR ''-''"
    by (simp add: line_break_def)
  have "Cut (delimiter b) ?z2 = None"
    using assms by (simp add: delimiter_free_def)
  then have "Cut (delimiter b) ?z1 = None"
    by (simp only: cut_delimiter_skip [OF type_line_no_CR b] option.map)
  then have "Cut (delimiter b) (disposition_line p @ line_break @ ?z1) = None"
    by (simp only: cut_delimiter_skip [OF disposition_line_no_CR a] option.map)
  then show ?thesis
    by (simp add: part_text_lines)
qed

lemma written_tail_Cons:
  "written_tail b (p # ps)
   = line_break @ part_text p @ delimiter b @ written_tail b ps"
  by (simp add: delimiter_def CRLF_line_break)

lemma read_parts_written_tail:
  assumes "\<forall>p \<in> set ps. plain (part_name p) \<and> plain (part_filename p)
                          \<and> delimiter_free b (part_content p)"
  shows "read_parts (delimiter b) (written_tail b ps) = Some ps"
  using assms
proof (induction ps)
  case Nil
  show ?case
    by (subst read_parts.simps) (simp add: delimiter_nonempty)
next
  case (Cons p ps)
  let ?t = "part_text p @ delimiter b @ written_tail b ps"
  have 1: "take 2 (line_break @ ?t) \<noteq> ''--''"
    by (simp add: line_break_def)
  have 2: "strip_prefix line_break (line_break @ ?t) = Some ?t"
    by (rule strip_prefix_append)
  have "Cut (delimiter b) (part_text p @ butlast (delimiter b)) = None"
    using Cons.prems by (intro part_text_delimiter_free) simp
  then have 3: "Cut (delimiter b) ?t = Some (part_text p, written_tail b ps)"
    by (rule cut_first [OF delimiter_nonempty])
  have 4: "read_part (part_text p) = Some p"
    using Cons.prems by (intro read_part_text) simp_all
  have 5: "read_parts (delimiter b) (written_tail b ps) = Some ps"
    using Cons.prems by (intro Cons.IH) simp
  show ?case
    unfolding written_tail_Cons
    by (subst read_parts.simps)
       (simp only: delimiter_nonempty 1 2 3 4 5 if_False option.case prod.case option.map)
qed


lemma header_order: "''Content-Disposition'' \<le> ''Content-Type''"
  by code_simp

lemma sort_headers:
  "sort_key fst [(''Content-Disposition'', x), (''Content-Type'', y)]
   = [(''Content-Disposition'', x), (''Content-Type'', y)]"
  using header_order by (simp del: list.simps)

lemma Write_CreateFormFile:
  "Write (Content fh) (CreateFormFile field (Name fh) w) =
     w\<lparr>buf := buf w @ (if lastpart w then CRLF else []) @ ''--'' @ boundary w @ CRLF
                @ part_text (part_of (field, fh)),
       lastpart := True\<rparr>"
  by (simp add: Write_def CreateFormFile_def CreatePart_def sort_headers part_text_def
      part_of_def del: sort_key_simps)

lemma copy_files_open:
  assumes "copy_files fs w = Inr w'" "lastpart w"
  shows "buf (Close w') = buf w @ CRLF @ ''--'' @ boundary w
                          @ written_tail (boundary w) (map part_of fs)"
  using assms
proof (induction fs arbitrary: w)
  case Nil
  then show ?case by (simp add: Close_def)
next
  case (Cons x fs)
  obtain field fh where x: "x = (field, fh)" by (cases x)
  let ?w1 = "Write (Content fh) (CreateFormFile field (Name fh) w)"
  from Cons.prems x have c: "copy_files fs ?w1 = Inr w'"
    by (auto simp: Let_def split: option.splits)
  have l: "lastpart ?w1" and b: "boundary ?w1 = boundary w"
    and f: "buf ?w1 = buf w @ CRLF @ ''--'' @ boundary w @ CRLF @ part_text (part_of (field, fh))"
    using Cons.prems(2) by (simp_all add: Write_CreateFormFile)
  from Cons.IH [OF c l] show ?case
    by (simp add: b f x)
qed

lemma copy_files_new:
  assumes "copy_files fs (NewWriter b) = Inr w'"
  shows "(if fs = [] then buf (Close w') else line_break @ buf (Close w'))
         = delimiter b @ written_tail b (map part_of fs)"
proof (cases fs)
  case Nil
  with assms have "w' = NewWriter b" by simp
  with Nil show ?thesis
    by (simp add: Close_def NewWriter_def delimiter_def CRLF_line_break)
next
  case (Cons x fs')
  obtain field fh where x: "x = (field, fh)" by (cases x)
  let ?w1 = "Write (Content fh) (CreateFormFile field (Name fh) (NewWriter b))"
  from assms Cons x have c: "copy_files fs' ?w1 = Inr w'"
    by (auto simp: Let_def split: option.splits)
  have l: "lastpart ?w1" and bb: "boundary ?w1 = b"
    and f: "buf ?w1 = ''--'' @ b @ CRLF @ part_text (part_of (field, fh))"
    by (simp_all add: Write_CreateFormFile NewWriter_def)
  from copy_files_open [OF c l] Cons x show ?thesis
    by (simp add: bb f delimiter_def CRLF_line_break)
qed

lemma read_message_written:
  assumes "copy_files fs (NewWriter b) = Inr w'"
    and "\<forall>e \<in> set fs. plain (fst e) \<and> plain (Name (snd e)) \<and> delimiter_free b (Content (snd e))"
  shows "read_message b (buf (Close w')) = Some (map part_of fs)"
proof -
  let ?d = "delimiter b"
  let ?tail = "written_tail b (map part_of fs)"
  have r: "read_parts ?d ?tail = Some (map part_of fs)"
    using assms(2) by (intro read_parts_written_tail) (simp add: part_of_def)
  have short: "Cut ?d (butlast ?d) = None"
    using delimiter_nonempty [of b] by (intro cut_short) simp
  show ?thesis
  proof (cases "fs = []")
    case True
    have "butlast ?d = [] \<or> hd (butlast ?d) \<noteq> CHR ''-''"
      by (simp add: delimiter_def line_break_def)
    from cut_delimiter_skip [of "[]", OF _ this, of b] short
    have "Cut ?d (line_break @ butlast ?d) = None" by simp
    from cut_first [OF delimiter_nonempty this]
    have "Cut ?d (line_break @ ?d @ ?tail) = Some (line_break, ?tail)" .
    moreover have "buf (Close w') = ?d @ ?tail"
      using copy_files_new [OF assms(1)] True by simp
    ultimately show ?thesis
      using r by (simp add: read_message_def)
  next
    case False
    from short have "Cut ?d ([] @ butlast ?d) = None" by simp
    from cut_first [OF delimiter_nonempty this]
    have "Cut ?d (?d @ ?tail) = Some ([], ?tail)" by simp
    moreover have "line_break @ buf (Close w') = ?d @ ?tail"
      using copy_files_new [OF assms(1)] False by simp
    ultimately show ?thesis
      using r by (simp add: read_message_def)
  qed
qed


lemma copy_files_boundary:
  "copy_files fs w = Inr w' \<Longrightarrow> boundary w' = boundary w"
proof (induction fs arbitrary: w)
  case Nil
  then show ?case by simp
next
  case (Cons x fs)
  obtain field fh where x: "x = (field, fh)" by (cases x)
  from Cons.prems x
  have "copy_files fs (Write (Content fh) (CreateFormFile field (Name fh) w)) = Inr w'"
    by (auto simp: Let_def split: option.splits)
  from Cons.IH [OF this] show ?case by (simp add: Write_CreateFormFile)
qed

lemma closed_written:
  assumes "copy_files fs (NewWriter b) = Inr w'"
  shows "buf (Close w') = buf w' @ delimiter b @ ''--'' @ line_break"
  using copy_files_boundary [OF assms]
  by (simp add: Close_def NewWriter_def delimiter_def CRLF_line_break)

lemma requestFiles_eq:
  assumes "copy_files (entries (Files (parseOptions (defaults env) s)))
             (NewWriter (randomBoundary env)) = Inr w'"
    and "Headers (parseOptions (defaults env) s) = Some h"
  shows "requestFiles env m u s = request env m u
      (s @ [Headers_opt (Some (store ''Content-Type'' (FormDataContentType w') h)),
            Body_opt (Some (Reader (buf (Close w'))))])"
  using assms by (simp add: requestFiles_def Let_def)

lemma requestFiles_panic:
  assumes "copy_files (entries (Files (parseOptions (defaults env) s)))
             (NewWriter (randomBoundary env)) = Inr w'"
    and "Headers (parseOptions (defaults env) s) = None"
  shows "requestFiles env m u s = ([], Panic)"
  using assms by (simp add: requestFiles_def Let_def)

lemma requestFiles_submitted:
  fixes env :: "('d, 'j) env"
  assumes "Submitted req \<in> set (fst (requestFiles env m u s))"
  obtains w' where "copy_files (entries (Files (parseOptions (defaults env) s)))
             (NewWriter (randomBoundary env)) = Inr w'"
    "ReqBody req = Some (buf (Close w'))"
proof (cases "copy_files (entries (Files (parseOptions (defaults env) s)))
             (NewWriter (randomBoundary env))")
  case (Inl err)
  with assms show ?thesis by (simp add: requestFiles_fail)
next
  case (Inr w')
  show ?thesis
  proof (cases "Headers (parseOptions (defaults env) s)")
    case None
    with Inr assms show ?thesis by (simp add: requestFiles_panic)
  next
    case (Some h)
    let ?s' = "s @ [Headers_opt (Some (store ''Content-Type'' (FormDataContentType w') h)),
            Body_opt (Some (Reader (buf (Close w'))))]"
    from assms requestFiles_eq [OF Inr Some]
    have "Submitted req \<in> set (fst (request env m u ?s'))" by simp
    then obtain req0 u' where r: "req = fill_request env (parseOptions (defaults env) ?s') req0"
      and n: "NewRequest env m u' (Body (parseOptions (defaults env) ?s')) = NewRequest_ok req0"
      by (rule request_submitted)
    have "Body (parseOptions (defaults env) ?s') = Some (Reader (buf (Close w')))"
      by (simp add: parseOptions_append)
    with n have "ReqBody req0 = Some (buf (Close w'))"
      using NewRequest_ReqBody [of env m u' "buf (Close w')" req0] by simp
    with r have "ReqBody req = Some (buf (Close w'))"
      by (simp add: fill_request_ReqBody)
    with Inr that show ?thesis by blast
  qed
qed

lemma example_written:
  "buf (Close (Write ''PNG'' (CreateFormFile ''img'' ''b.png''
            (Write ''hi'' (CreateFormFile ''doc'' ''a.txt'' (NewWriter ''b0'')))))) = example_body"
  by code_simp

lemma example_content_type2:
  "FormDataContentType (Write ''PNG'' (CreateFormFile ''img'' ''b.png''
            (Write ''hi'' (CreateFormFile ''doc'' ''a.txt'' (NewWriter ''b0'')))))
   = ''multipart/form-data; boundary=b0''"
  by (simp add: FormDataContentType_def Write_def CreateFormFile_def CreatePart_def NewWriter_def)

lemma example_requestFiles:
  "requestFiles (example_env a) MethodPost ''http://h/'' [Files_opt (Some example_files)] =
     ([Constructed \<lparr>Method = MethodPost, URL = ''http://h/'', Header = [],
                    ReqBody = Some example_body\<rparr>,
       Submitted \<lparr>Method = MethodPost, URL = ''http://h/'',
         Header = [(''Content-Type'', [''multipart/form-data; boundary=b0''])],
         ReqBody = Some example_body\<rparr>],
      wrap a)"
  by (simp add: requestFiles_def request_def parseOptions_def example_env_def
      example_defaults_def len_def request_send_def NewRequest_def fill_request_def entries_def
      ranged_def store_def
      Header_Set_def canon_content_type example_content_type2 example_files_def Let_def
      example_written)

lemma escaped_written:
  "buf (Close (Write ''hi'' (CreateFormFile [CHR 0x0D] (''a'' @ [CHR 0x0A]) (NewWriter ''b0''))))
     = escaped_body"
  by code_simp

lemma escaped_content_type:
  "FormDataContentType (Write ''hi'' (CreateFormFile [CHR 0x0D] (''a'' @ [CHR 0x0A]) (NewWriter ''b0'')))
   = ''multipart/form-data; boundary=b0''"
  by (simp add: FormDataContentType_def Write_def CreateFormFile_def CreatePart_def NewWriter_def)

lemma escaped_post:
  "Post (example_env a) ''http://h/''
     [Files_opt (Some [([CHR 0x0D], \<lparr>Name = ''a'' @ [CHR 0x0A], Content = ''hi'', ReadErr = None\<rparr>)])] =
     ([Constructed \<lparr>Method = MethodPost, URL = ''http://h/'', Header = [],
                    ReqBody = Some escaped_body\<rparr>,
       Submitted \<lparr>Method = MethodPost, URL = ''http://h/'',
         Header = [(''Content-Type'', [''multipart/form-data; boundary=b0''])],
         ReqBody = Some escaped_body\<rparr>],
      wrap a)"
  using escaped_written escaped_content_type
  by (simp add: Post_def requestFiles_def request_def parseOptions_def example_env_def
      example_defaults_def len_def request_send_def NewRequest_def fill_request_def entries_def
      ranged_def store_def
      Header_Set_def canon_content_type Let_def)

lemma broken_written:
  "buf (Close (Write (line_break @ ''--b0--'') (CreateFormFile ''f'' ''a.txt'' (NewWriter ''b0''))))
     = broken_body"
  by code_simp

lemma broken_content_type:
  "FormDataContentType (Write (line_break @ ''--b0--'') (CreateFormFile ''f'' ''a.txt'' (NewWriter ''b0'')))
   = ''multipart/form-data; boundary=b0''"
  by (simp add: FormDataContentType_def Write_def CreateFormFile_def CreatePart_def NewWriter_def)

lemma broken_post:
  "Post (example_env a) ''http://h/''
     [Files_opt (Some [(''f'', \<lparr>Name = ''a.txt'', Content = line_break @ ''--b0--'', ReadErr = None\<rparr>)])] =
     ([Constructed \<lparr>Method = MethodPost, URL = ''http://h/'', Header = [],
                    ReqBody = Some broken_body\<rparr>,
       Submitted \<lparr>Method = MethodPost, URL = ''http://h/'',
         Header = [(''Content-Type'', [''multipart/form-data; boundary=b0''])],
         ReqBody = Some broken_body\<rparr>],
      wrap a)"
  using broken_written broken_content_type
  by (simp add: Post_def requestFiles_def request_def parseOptions_def example_env_def
      example_defaults_def len_def request_send_def NewRequest_def fill_request_def entries_def
      ranged_def store_def
      Header_Set_def canon_content_type Let_def)

text \<open>
  Claim C7, as stated, fails: the body is not always a message with one part per entry
  whose name is the field key, whose file name is the declared name and whose content is
  the bytes of the source. \<open>CreateFormFile\<close> writes a carriage return in a name as
  \<^verbatim>\<open>%0D\<close> and a line feed as \<^verbatim>\<open>%0A\<close>, so \<open>Post\<close> with the one field key of a
  carriage return and the file name \<^verbatim>\<open>a\<close> followed by a line feed submits a message
  whose only part has the name \<^verbatim>\<open>%0D\<close> and the file name \<^verbatim>\<open>a%0A\<close>; and the bytes of a
  source go out as they are, so a content that holds the closing delimiter of the
  boundary is read back cut short (here: empty).
\<close>

theorem C7_counterexample:
  "Submitted \<lparr>Method = MethodPost, URL = ''http://h/'',
       Header = [(''Content-Type'', [''multipart/form-data; boundary=b0''])],
       ReqBody = Some escaped_body\<rparr>
     \<in> set (fst (Post (example_env (Inr None)) ''http://h/''
          [Files_opt (Some [([CHR 0x0D],
              \<lparr>Name = ''a'' @ [CHR 0x0A], Content = ''hi'', ReadErr = None\<rparr>)])]))
   \<and> read_message ''b0'' escaped_body
       = Some [\<lparr>part_name = ''%0D'', part_filename = ''a%0A'', part_content = ''hi''\<rparr>]
   \<and> ''%0D'' \<noteq> [CHR 0x0D] \<and> ''a%0A'' \<noteq> ''a'' @ [CHR 0x0A]
   \<and> Submitted \<lparr>Method = MethodPost, URL = ''http://h/'',
       Header = [(''Content-Type'', [''multipart/form-data; boundary=b0''])],
       ReqBody = Some broken_body\<rparr>
     \<in> set (fst (Post (example_env (Inr None)) ''http://h/''
          [Files_opt (Some [(''f'',
              \<lparr>Name = ''a.txt'', Content = line_break @ ''--b0--'', ReadErr = None\<rparr>)])]))
   \<and> read_message ''b0'' broken_body
       = Some [\<lparr>part_name = ''f'', part_filename = ''a.txt'', part_content = []\<rparr>]
   \<and> line_break @ ''--b0--'' \<noteq> []"
proof -
  have "read_message ''b0'' escaped_body
       = Some [\<lparr>part_name = ''%0D'', part_filename = ''a%0A'', part_content = ''hi''\<rparr>]"
    by code_simp
  moreover have "read_message ''b0'' broken_body
       = Some [\<lparr>part_name = ''f'', part_filename = ''a.txt'', part_content = []\<rparr>]"
    by code_simp
  moreover have "Submitted \<lparr>Method = MethodPost, URL = ''http://h/'',
       Header = [(''Content-Type'', [''multipart/form-data; boundary=b0''])],
       ReqBody = Some escaped_body\<rparr>
     \<in> set (fst (Post (example_env (Inr None)) ''http://h/''
          [Files_opt (Some [([CHR 0x0D],
              \<lparr>Name = ''a'' @ [CHR 0x0A], Content = ''hi'', ReadErr = None\<rparr>)])]))"
    by (subst escaped_post) simp
  moreover have "Submitted \<lparr>Method = MethodPost, URL = ''http://h/'',
       Header = [(''Content-Type'', [''multipart/form-data; boundary=b0''])],
       ReqBody = Some broken_body\<rparr>
     \<in> set (fst (Post (example_env (Inr None)) ''http://h/''
          [Files_opt (Some [(''f'',
              \<lparr>Name = ''a.txt'', Content = line_break @ ''--b0--'', ReadErr = None\<rparr>)])]))"
    by (subst broken_post) simp
  moreover have "''%0D'' \<noteq> [CHR 0x0D]" "''a%0A'' \<noteq> ''a'' @ [CHR 0x0A]"
    "line_break @ ''--b0--'' \<noteq> []"
    by (simp_all add: line_break_def)
  ultimately show ?thesis
    by (intro conjI)
qed

text \<open>
  Claim C7, amended. When every source reads without error and the headers mapping is
  not nil, \<open>requestFiles\<close> hands the dispatcher a body that is a finished multipart
  message, and so is the body of every request that \<open>requestFiles\<close> submits: it ends with
  the terminating boundary line. When no field key and no declared file name of the files
  payload holds a carriage return or a line feed, and no delimiter of the boundary begins
  in a content (or in the line break before it), a reader of the message finds exactly
  the parts of the mapping's entries, in the order of the loop: one part per entry, its
  name the field key, its file name the name the source declares, its content the bytes
  of the source. \<open>Post\<close> with files as the only payload is \<open>requestFiles\<close>.
\<close>

theorem C7_multipart_body:
  fixes env :: "('d, 'j) env"
  shows
  "((\<forall>e \<in> set (entries (Files (parseOptions (defaults env) s))). ReadErr (snd e) = None)
      \<and> Headers (parseOptions (defaults env) s) \<noteq> None \<longrightarrow>
      (\<exists>body h' pre.
         requestFiles env m u s
           = request env m u (s @ [Headers_opt (Some h'), Body_opt (Some (Reader body))])
         \<and> body = pre @ delimiter (randomBoundary env) @ ''--'' @ line_break
         \<and> ((\<forall>e \<in> set (entries (Files (parseOptions (defaults env) s))).
                plain (fst e) \<and> plain (Name (snd e))
                \<and> delimiter_free (randomBoundary env) (Content (snd e)))
            \<longrightarrow> read_message (randomBoundary env) body
                  = Some (map part_of (entries (Files (parseOptions (defaults env) s)))))))
   \<and> (\<forall>req. Submitted req \<in> set (fst (requestFiles env m u s)) \<longrightarrow>
      (\<exists>body pre. ReqBody req = Some body
         \<and> body = pre @ delimiter (randomBoundary env) @ ''--'' @ line_break
         \<and> ((\<forall>e \<in> set (entries (Files (parseOptions (defaults env) s))).
                plain (fst e) \<and> plain (Name (snd e))
                \<and> delimiter_free (randomBoundary env) (Content (snd e)))
            \<longrightarrow> read_message (randomBoundary env) body
                  = Some (map part_of (entries (Files (parseOptions (defaults env) s)))))))
   \<and> (Data (parseOptions (defaults env) s) = None \<and> Form (parseOptions (defaults env) s) = None
        \<and> JSON (parseOptions (defaults env) s) = None
        \<and> Files (parseOptions (defaults env) s) \<noteq> None \<longrightarrow>
      Post env u s = requestFiles env MethodPost u s)"
proof -
  let ?fs = "entries (Files (parseOptions (defaults env) s))"
  let ?b = "randomBoundary env"
  let ?ok = "\<forall>e \<in> set ?fs. plain (fst e) \<and> plain (Name (snd e))
                \<and> delimiter_free ?b (Content (snd e))"
  have written: "buf (Close w') = buf w' @ delimiter ?b @ ''--'' @ line_break
      \<and> (?ok \<longrightarrow> read_message ?b (buf (Close w')) = Some (map part_of ?fs))"
    if "copy_files ?fs (NewWriter ?b) = Inr w'" for w'
    using closed_written [OF that] read_message_written [OF that] by blast
  have 1: "\<exists>body h' pre.
         requestFiles env m u s
           = request env m u (s @ [Headers_opt (Some h'), Body_opt (Some (Reader body))])
         \<and> body = pre @ delimiter ?b @ ''--'' @ line_break
         \<and> (?ok \<longrightarrow> read_message ?b body = Some (map part_of ?fs))"
    if r: "\<forall>e \<in> set ?fs. ReadErr (snd e) = None"
      and h: "Headers (parseOptions (defaults env) s) \<noteq> None"
  proof -
    from copy_files_ok [OF r] obtain w' where c: "copy_files ?fs (NewWriter ?b) = Inr w'"
      by blast
    from h obtain h0 where "Headers (parseOptions (defaults env) s) = Some h0" by blast
    from requestFiles_eq [OF c this] written [OF c] show ?thesis by blast
  qed
  have 2: "\<exists>body pre. ReqBody req = Some body
         \<and> body = pre @ delimiter ?b @ ''--'' @ line_break
         \<and> (?ok \<longrightarrow> read_message ?b body = Some (map part_of ?fs))"
    if "Submitted req \<in> set (fst (requestFiles env m u s))" for req
  proof -
    from that obtain w' where c: "copy_files ?fs (NewWriter ?b) = Inr w'"
      and b: "ReqBody req = Some (buf (Close w'))"
      by (rule requestFiles_submitted)
    from b written [OF c] show ?thesis by blast
  qed
  have 3: "Post env u s = requestFiles env MethodPost u s"
    if "Data (parseOptions (defaults env) s) = None \<and> Form (parseOptions (defaults env) s) = None
        \<and> JSON (parseOptions (defaults env) s) = None
        \<and> Files (parseOptions (defaults env) s) \<noteq> None"
    using that by (simp add: Post_def Let_def)
  from 1 2 3 show ?thesis by blast
qed

text \<open>A \<^verbatim>\<open>POST\<close> of two named byte sources: the body read back holds the two parts.\<close>

theorem C7_multipart_body_witness:
  "Submitted \<lparr>Method = MethodPost, URL = ''http://h/'',
       Header = [(''Content-Type'', [''multipart/form-data; boundary=b0''])],
       ReqBody = Some example_body\<rparr>
     \<in> set (fst (requestFiles (example_env (Inr None)) MethodPost ''http://h/''
                  [Files_opt (Some example_files)]))
   \<and> read_message ''b0'' example_body =
       Some [\<lparr>part_name = ''doc'', part_filename = ''a.txt'', part_content = ''hi''\<rparr>,
             \<lparr>part_name = ''img'', part_filename = ''b.png'', part_content = ''PNG''\<rparr>]
   \<and> Post (example_env (Inr None)) ''http://h/'' [Files_opt (Some example_files)]
       = requestFiles (example_env (Inr None)) MethodPost ''http://h/''
           [Files_opt (Some example_files)]"
proof -
  let ?env = "example_env (Inr None) :: (string, string) env"
  let ?s = "[Files_opt (Some example_files)] :: (string, string) Setter list"
  let ?req = "\<lparr>Method = MethodPost, URL = ''http://h/'',
       Header = [(''Content-Type'', [''multipart/form-data; boundary=b0''])],
       ReqBody = Some example_body\<rparr>"
  note inst = C7_multipart_body [where env = ?env and m = MethodPost and u = "''http://h/''"
        and s = ?s]
  have h: "Submitted ?req \<in> set (fst (requestFiles ?env MethodPost ''http://h/'' ?s))"
    by (simp add: example_requestFiles)
  have b: "randomBoundary ?env = ''b0''"
    by (simp add: example_env_def)
  have fs: "entries (Files (parseOptions (defaults ?env) ?s)) = example_files"
    by (simp add: entries_def parseOptions_def)
  have d1: "delimiter_free ''b0'' ''hi''" by code_simp
  have d2: "delimiter_free ''b0'' ''PNG''" by code_simp
  have ok: "\<forall>e \<in> set example_files. plain (fst e) \<and> plain (Name (snd e))
                \<and> delimiter_free ''b0'' (Content (snd e))"
    using d1 d2 by (simp add: example_files_def plain_def)
  from inst have "\<forall>req. Submitted req \<in> set (fst (requestFiles ?env MethodPost ''http://h/'' ?s)) \<longrightarrow>
      (\<exists>body pre. ReqBody req = Some body
         \<and> body = pre @ delimiter (randomBoundary ?env) @ ''--'' @ line_break
         \<and> ((\<forall>e \<in> set (entries (Files (parseOptions (defaults ?env) ?s))).
                plain (fst e) \<and> plain (Name (snd e))
                \<and> delimiter_free (randomBoundary ?env) (Content (snd e)))
            \<longrightarrow> read_message (randomBoundary ?env) body
                  = Some (map part_of (entries (Files (parseOptions (defaults ?env) ?s))))))"
    by (elim conjE)
  with h obtain body where "ReqBody ?req = Some body"
    and r: "(\<forall>e \<in> set (entries (Files (parseOptions (defaults ?env) ?s))).
                plain (fst e) \<and> plain (Name (snd e))
                \<and> delimiter_free (randomBoundary ?env) (Content (snd e)))
            \<longrightarrow> read_message (randomBoundary ?env) body
                  = Some (map part_of (entries (Files (parseOptions (defaults ?env) ?s))))"
    by blast
  then have "body = example_body" by simp
  with r ok have "read_message ''b0'' example_body = Some (map part_of example_files)"
    by (simp only: b fs)
  then have r1: "read_message ''b0'' example_body =
       Some [\<lparr>part_name = ''doc'', part_filename = ''a.txt'', part_content = ''hi''\<rparr>,
             \<lparr>part_name = ''img'', part_filename = ''b.png'', part_content = ''PNG''\<rparr>]"
    by (simp add: example_files_def part_of_def)
  have "Data (parseOptions (defaults ?env) ?s) = None \<and> Form (parseOptions (defaults ?env) ?s) = None
        \<and> JSON (parseOptions (defaults ?env) ?s) = None
        \<and> Files (parseOptions (defaults ?env) ?s) \<noteq> None"
    by (simp add: parseOptions_def example_env_def example_defaults_def)
  with inst have r2: "Post ?env ''http://h/'' ?s = requestFiles ?env MethodPost ''http://h/'' ?s"
    by blast
  from h r1 r2 show ?thesis by (intro conjI)
qed

section \<open>The query string\<close>



lemma unhex_upperhex_all:
  "\<forall>d \<in> set [0..<16]. ishex (upperhex d) \<and> unhex (upperhex d) = d"
  by code_simp

lemma unhex_upperhex:
  assumes "d < 16"
  shows "ishex (upperhex d)" "unhex (upperhex d) = d"
proof -
  from assms have "d \<in> set [0..<16]" by simp
  with unhex_upperhex_all have "ishex (upperhex d) \<and> unhex (upperhex d) = d"
    by blast
  then show "ishex (upperhex d)" "unhex (upperhex d) = d" by simp_all
qed

lemma upperhex_plain:
  "upperhex d \<in> set ''0123456789ABCDEF''"
proof -
  have "d mod 16 < length ''0123456789ABCDEF''" by simp
  then show ?thesis unfolding upperhex_def by (rule nth_mem)
qed

lemma char_of_hex:
  "char_of ((of_char c :: nat) div 16 * 16 + of_char c mod 16) = c"
  by simp

lemma QueryUnescape_QueryEscape: "QueryUnescape (QueryEscape s) = Some s"
proof (induction s)
  case Nil
  then show ?case by simp
next
  case (Cons c s)
  define n :: nat where "n = of_char c"
  have "n mod 256 = n" unfolding n_def by simp
  then have "n < 256" by (metis mod_less_divisor zero_less_numeral)
  then have n: "n div 16 < 16" "n mod 16 < 16"
    by simp_all
  show ?case
  proof (cases "c = CHR '' ''")
    case True
    with Cons show ?thesis by simp
  next
    case False
    show ?thesis
    proof (cases "shouldEscape c")
      case True
      have "char_of (n div 16 * 16 + n mod 16) = c"
        unfolding n_def by simp
      with True False Cons n show ?thesis
        by (simp add: unhex_upperhex n_def [symmetric])
    next
      case ne: False
      then have "c \<noteq> CHR ''%''" "c \<noteq> CHR ''+''"
        by (auto simp: shouldEscape_def isLower_def isUpper_def isDigit_def)
      with ne False Cons show ?thesis by simp
    qed
  qed
qed


lemma upperhex_no_separator: "\<not> separator (upperhex d)"
  using upperhex_plain [of d] by (auto simp: separator_def)

lemma QueryEscape_no_separator: "c \<in> set (QueryEscape s) \<Longrightarrow> \<not> separator c"
proof (induction s)
  case Nil
  then show ?case by simp
next
  case (Cons a s)
  have "\<not> shouldEscape a \<Longrightarrow> \<not> separator a"
    by (auto simp: shouldEscape_def separator_def isLower_def isUpper_def isDigit_def)
  moreover have "\<not> separator CHR ''+''" "\<not> separator CHR ''%''"
    by (simp_all add: separator_def)
  ultimately show ?case
    using Cons upperhex_no_separator
    by (auto split: if_splits)
qed

lemma cut_char_none: "c \<notin> set s \<Longrightarrow> Cut [c] s = None"
  by (induction s) auto

lemma cut_char: "c \<notin> set a \<Longrightarrow> Cut [c] (a @ c # r) = Some (a, r)"
  by (induction a) auto

lemma before_sep_none: "c \<notin> set s \<Longrightarrow> before_sep [c] s = s"
  by (simp add: before_sep_def cut_char_none)

lemma after_sep_none: "c \<notin> set s \<Longrightarrow> after_sep [c] s = []"
  by (simp add: after_sep_def cut_char_none)

lemma before_sep_char: "c \<notin> set a \<Longrightarrow> before_sep [c] (a @ c # r) = a"
  by (simp add: before_sep_def cut_char)

lemma after_sep_char: "c \<notin> set a \<Longrightarrow> after_sep [c] (a @ c # r) = r"
  by (simp add: after_sep_def cut_char)

lemma RawQuery_appended:
  assumes "CHR ''?'' \<notin> set u" "CHR ''#'' \<notin> set u" "CHR ''#'' \<notin> set q"
  shows "RawQuery (u @ ''?'' @ q) = q"
proof -
  from assms have "CHR ''#'' \<notin> set (u @ ''?'' @ q)" by simp
  then have "before_sep ''#'' (u @ ''?'' @ q) = u @ ''?'' @ q"
    by (rule before_sep_none)
  moreover have "after_sep ''?'' (u @ CHR ''?'' # q) = q"
    using assms(1) by (rule after_sep_char)
  ultimately show ?thesis by (simp add: RawQuery_def)
qed

lemma setting_chars:
  "c \<in> set (setting e) \<Longrightarrow> c \<noteq> CHR ''&'' \<and> c \<noteq> CHR '';'' \<and> c \<noteq> CHR ''#''"
  using QueryEscape_no_separator [of c "fst e"] QueryEscape_no_separator [of c "snd e"]
  by (auto simp: setting_def separator_def)

lemma setting_nonempty: "setting e \<noteq> []"
  by (simp add: setting_def)

lemma parseQuery_setting_setting:
  "parseQuery_setting (setting (k, x)) (m, None) = (Add k x m, None)"
proof -
  have 1: "CHR '';'' \<notin> set (setting (k, x))" using setting_chars by blast
  have "CHR ''='' \<notin> set (QueryEscape k)"
    using QueryEscape_no_separator [of "CHR ''=''" k] by (auto simp: separator_def)
  then have "before_sep ''='' (QueryEscape k @ CHR ''='' # QueryEscape x) = QueryEscape k"
    "after_sep ''='' (QueryEscape k @ CHR ''='' # QueryEscape x) = QueryEscape x"
    by (simp_all add: before_sep_char after_sep_char)
  then have 2: "before_sep ''='' (setting (k, x)) = QueryEscape k"
    "after_sep ''='' (setting (k, x)) = QueryEscape x"
    by (simp_all add: setting_def)
  show ?thesis
    unfolding parseQuery_setting_def
    using 1 setting_nonempty [of "(k, x)"]
    by (simp add: 2 QueryUnescape_QueryEscape)
qed

lemma joined_chars:
  "CHR ''#'' \<notin> set (joined (map setting es))"
proof (induction es rule: induct_list012)
  case 1
  then show ?case by simp
next
  case (2 x)
  then show ?case using setting_chars [of "CHR ''#''" x] by auto
next
  case (3 x y zs)
  then show ?case using setting_chars [of "CHR ''#''" x] by auto
qed

lemma parseQuery_joined:
  "parseQuery (m, None) (joined (map setting es))
   = (foldl (\<lambda>v e. Add (fst e) (snd e) v) m es, None)"
proof (induction es arbitrary: m rule: induct_list012)
  case 1
  then show ?case by (subst parseQuery.simps) simp
next
  case (2 e)
  obtain k x where e: "e = (k, x)" by (cases e)
  have "CHR ''&'' \<notin> set (setting e)" using setting_chars by blast
  then have c: "before_sep ''&'' (setting e) = setting e" "after_sep ''&'' (setting e) = []"
    by (simp_all add: before_sep_none after_sep_none)
  have "parseQuery (m, None) (setting e)
        = parseQuery (parseQuery_setting (setting e) (m, None)) []"
    using setting_nonempty [of e] c by (subst parseQuery.simps) simp
  also have "\<dots> = parseQuery_setting (setting e) (m, None)"
    by (subst parseQuery.simps) simp
  finally show ?case by (simp add: e parseQuery_setting_setting)
next
  case (3 e y zs)
  obtain k x where e: "e = (k, x)" by (cases e)
  let ?rest = "joined (map setting (y # zs))"
  have "CHR ''&'' \<notin> set (setting e)" using setting_chars by blast
  then have c: "before_sep ''&'' (setting e @ CHR ''&'' # ?rest) = setting e"
    "after_sep ''&'' (setting e @ CHR ''&'' # ?rest) = ?rest"
    by (simp_all add: before_sep_char after_sep_char)
  have "parseQuery (m, None) (setting e @ CHR ''&'' # ?rest)
        = parseQuery (parseQuery_setting (setting e) (m, None)) ?rest"
    using c by (subst parseQuery.simps) simp
  also have "\<dots> = parseQuery (Add k x m, None) ?rest"
    by (simp add: e parseQuery_setting_setting)
  also have "\<dots> = (foldl (\<lambda>v e. Add (fst e) (snd e) v) (Add k x m) (y # zs), None)"
    by (rule 3)
  finally show ?case by (simp add: e)
qed


lemma add_all_snoc: "add_all (qs @ [(k, x)]) = Add k x (add_all qs)"
  by (simp add: add_all_def)

lemma add_all_fold: "foldl (\<lambda>v e. Add (fst e) (snd e) v) [] qs = add_all qs"
proof -
  have "(\<lambda>v e. Add (fst e) (snd e) v) = (\<lambda>v (k, x). Add k x v)"
    by (intro ext) (simp add: case_prod_beta)
  then show ?thesis by (simp add: add_all_def)
qed

lemma distinct_add_all: "distinct (map fst (add_all qs))"
proof (induction qs rule: rev_induct)
  case Nil
  then show ?case by (simp add: add_all_def)
next
  case (snoc e qs)
  obtain k x where e: "e = (k, x)" by (cases e)
  from snoc show ?case by (simp add: e add_all_snoc Add_def distinct_update)
qed

lemma map_of_add_all:
  "distinct (map fst qs) \<Longrightarrow> map_of (add_all qs) k' = map_option (\<lambda>x. [x]) (map_of qs k')"
proof (induction qs arbitrary: k' rule: rev_induct)
  case Nil
  then show ?case by (simp add: add_all_def)
next
  case (snoc e qs)
  obtain k x where e: "e = (k, x)" by (cases e)
  from snoc.prems e have d: "distinct (map fst qs)" and k: "k \<notin> fst ` set qs" by simp_all
  from k have n: "map_of qs k = None" by (simp add: map_of_eq_None_iff)
  with snoc.IH [OF d, of k] have g: "map_of (add_all qs) k = None" by simp
  have "map_of (qs @ [(k, x)]) k' = (if k' = k then Some x else map_of qs k')"
    using n by (simp add: map_add_def split: option.splits)
  moreover have "map_of (add_all (qs @ [(k, x)])) k'
     = (if k' = k then Some (Get_all (add_all qs) k @ [x]) else map_of (add_all qs) k')"
    by (simp add: add_all_snoc Add_def update_conv')
  moreover have "Get_all (add_all qs) k = []"
    using g by (simp add: Get_all_def)
  ultimately show ?case using snoc.IH [OF d, of k'] by (simp add: e)
qed

lemma keys_add_all:
  assumes "distinct (map fst qs)"
  shows "set (map fst (add_all qs)) = fst ` set qs"
proof -
  have "dom (map_of (add_all qs)) = dom (map_of qs)"
    using map_of_add_all [OF assms] by (auto simp: dom_def)
  then show ?thesis by (simp add: dom_map_of_conv_image_fst)
qed

lemma Get_all_add_all:
  assumes "distinct (map fst qs)" "k \<in> fst ` set qs"
  shows "Get_all (add_all qs) k = [the (map_of qs k)]"
proof -
  from assms(2) obtain x where "map_of qs k = Some x"
    by (metis domD dom_map_of_conv_image_fst)
  then show ?thesis using map_of_add_all [OF assms(1), of k] by (simp add: Get_all_def)
qed

lemma Encode_keys_joined:
  assumes "\<forall>k \<in> set ks. Get_all v k = [f k]"
  shows "Encode_keys v ks acc =
     (if ks = [] then acc
      else (if acc = [] then [] else acc @ ''&'') @ joined (map (\<lambda>k. setting (k, f k)) ks))"
  using assms
proof (induction ks arbitrary: acc)
  case Nil
  then show ?case by simp
next
  case (Cons k ks)
  let ?acc = "(if acc \<noteq> [] then acc @ ''&'' else acc) @ setting (k, f k)"
  from Cons.prems have g: "Get_all v k = [f k]" and r: "\<forall>k \<in> set ks. Get_all v k = [f k]"
    by simp_all
  have ne: "?acc \<noteq> []" using setting_nonempty [of "(k, f k)"] by simp
  have "Encode_keys v (k # ks) acc = Encode_keys v ks ?acc"
    by (simp add: g setting_def)
  also have "\<dots> = (if ks = [] then ?acc
      else ?acc @ ''&'' @ joined (map (\<lambda>k. setting (k, f k)) ks))"
    using Cons.IH [OF r, of ?acc] ne by simp
  also have "\<dots> = (if acc = [] then [] else acc @ ''&'')
                   @ joined (map (\<lambda>k. setting (k, f k)) (k # ks))"
    by (cases ks) simp_all
  finally show ?case by simp
qed

lemma Encode_add_all:
  assumes "distinct (map fst ps)"
  shows "Encode (add_all ps) =
     joined (map setting (map (\<lambda>k. (k, the (map_of ps k))) (sort (map fst (add_all ps)))))"
proof -
  let ?ks = "sort (map fst (add_all ps))"
  have "\<forall>k \<in> set ?ks. Get_all (add_all ps) k = [the (map_of ps k)]"
    using keys_add_all [OF assms] Get_all_add_all [OF assms] by simp
  from Encode_keys_joined [OF this, of "[]"]
  show ?thesis by (simp add: Encode_def comp_def)
qed

lemma ParseQuery_Encode:
  assumes "distinct (map fst ps)"
  shows "ParseQuery (Encode (add_all ps)) =
     (add_all (map (\<lambda>k. (k, the (map_of ps k))) (sort (map fst (add_all ps)))), None)"
  by (simp only: Encode_add_all [OF assms] ParseQuery_def parseQuery_joined add_all_fold)

lemma decoded_pairs:
  assumes "distinct (map fst ps)"
  shows "set (add_all (map (\<lambda>k. (k, the (map_of ps k))) (sort (map fst (add_all ps)))))
         = (\<lambda>e. (fst e, [snd e])) ` set ps"
proof -
  let ?ks = "sort (map fst (add_all ps))"
  let ?qs = "map (\<lambda>k. (k, the (map_of ps k))) ?ks"
  have ks: "set ?ks = fst ` set ps" using keys_add_all [OF assms] by simp
  have dk: "distinct ?ks" using distinct_add_all [of ps] by simp
  have fq: "map fst ?qs = ?ks" by (simp add: comp_def)
  have dq: "distinct (map fst ?qs)" using dk by (simp only: fq)
  have m: "map_of ?qs k = map_of ps k" for k
  proof (cases "k \<in> fst ` set ps")
    case True
    then obtain x where x: "map_of ps k = Some x"
      by (metis domD dom_map_of_conv_image_fst)
    from True ks have "(k, the (map_of ps k)) \<in> set ?qs" by auto
    with dq have "map_of ?qs k = Some (the (map_of ps k))" by (simp only: map_of_eq_Some_iff)
    with x show ?thesis by simp
  next
    case False
    then have "map_of ps k = None" by (simp add: map_of_eq_None_iff)
    moreover from False ks have "k \<notin> fst ` set ?qs" by (simp add: image_image)
    then have "map_of ?qs k = None" by (simp only: map_of_eq_None_iff simp_thms)
    ultimately show ?thesis by simp
  qed
  have mo: "map_of (add_all ?qs) k = map_option (\<lambda>x. [x]) (map_of ps k)" for k
    using map_of_add_all [OF dq, of k] m by simp
  have da: "distinct (map fst (add_all ?qs))" by (rule distinct_add_all)
  show ?thesis
  proof (rule set_eqI)
    fix p :: "string \<times> string list"
    obtain k l where p: "p = (k, l)" by (cases p)
    have "(k, l) \<in> set (add_all ?qs) \<longleftrightarrow> map_of (add_all ?qs) k = Some l"
      using da by simp
    also have "\<dots> \<longleftrightarrow> (\<exists>x. map_of ps k = Some x \<and> l = [x])"
      by (auto simp: mo)
    also have "\<dots> \<longleftrightarrow> (\<exists>x. (k, x) \<in> set ps \<and> l = [x])"
      using assms by simp
    also have "\<dots> \<longleftrightarrow> (k, l) \<in> (\<lambda>e. (fst e, [snd e])) ` set ps"
      by force
    finally show "p \<in> set (add_all ?qs) \<longleftrightarrow> p \<in> (\<lambda>e. (fst e, [snd e])) ` set ps"
      by (simp add: p)
  qed
qed


lemma NewRequest_URL: "NewRequest env m u b = NewRequest_ok req0 \<Longrightarrow> URL req0 = u"
  by (auto simp: NewRequest_def split: option.splits reader.splits)

lemma request_send_constructed:
  assumes "Constructed req \<in> set (fst (request_send env opts m u))"
  shows "URL req = u"
  using assms
  by (cases rule: request_send_cases [of env opts m u]) (auto dest: NewRequest_URL)

lemma request_with_params:
  assumes "Params (parseOptions (defaults env) s) = Some ps" "ps \<noteq> []" "CHR ''?'' \<notin> set u"
  shows "request env m u s =
         request_send env (parseOptions (defaults env) s) m (u @ ''?'' @ Encode (add_all ps))"
  using assms by (simp add: request_def Let_def len_def entries_def)

lemma call_constructed:
  fixes env :: "('d, 'j) env"
  assumes p: "Params (parseOptions (defaults env) s) = Some ps" "ps \<noteq> []" "CHR ''?'' \<notin> set u"
    and c: "Constructed req \<in> set (fst (call env v u s))"
  shows "URL req = u @ ''?'' @ Encode (add_all ps)"
proof -
  have "dispatched env s u (call env v u s)" by (rule dispatched_call)
  with c early_no_events [of "call env v u s" "Constructed req"]
  obtain m and s' :: "('d, 'j) Setter list" where r: "call env v u s = request env m u s'"
    and ss: "same_settings (parseOptions (defaults env) s') (parseOptions (defaults env) s)"
    unfolding dispatched_def by blast
  from ss p(1) have "Params (parseOptions (defaults env) s') = Some ps"
    by (simp add: same_settings_def)
  from request_with_params [OF this p(2,3)] r c
  show ?thesis by (auto dest: request_send_constructed)
qed

lemma example_get_params:
  assumes "CHR ''?'' \<notin> set u"
  shows "Get (example_env a) u [Params_opt (Some example_params)] =
     ([Constructed \<lparr>Method = MethodGet, URL = u @ ''?lang=go&q=a+b%26c%3Dd'', Header = [],
                    ReqBody = None\<rparr>,
       Submitted \<lparr>Method = MethodGet, URL = u @ ''?lang=go&q=a+b%26c%3Dd'', Header = [],
                    ReqBody = None\<rparr>], wrap a)"
proof -
  have e: "Encode (add_all example_params) = ''lang=go&q=a+b%26c%3Dd''" by code_simp
  have p: "Params (parseOptions (defaults (example_env a)) [Params_opt (Some example_params)])
           = Some example_params"
    by (simp add: parseOptions_def)
  have n: "example_params \<noteq> []" by (simp add: example_params_def)
  show ?thesis
    unfolding Get_def request_with_params [OF p n assms] e
    by (simp add: parseOptions_def example_env_def example_defaults_def
      request_send_def NewRequest_def fill_request_def entries_def ranged_def)
qed

text \<open>
  Claim C9, as stated, fails: a target URL without \<^verbatim>\<open>?\<close> may hold a fragment. \<open>request\<close>
  appends \<^verbatim>\<open>?\<close> and the encoded params behind the fragment, so for the target URL
  \<^verbatim>\<open>http://h/p#top\<close> the constructed URL is \<^verbatim>\<open>http://h/p#top?lang=go&q=a+b%26c%3Dd\<close>:
  its query component is empty, and decoding it yields no key/value pair.
\<close>

theorem C9_counterexample:
  "Constructed \<lparr>Method = MethodGet, URL = ''http://h/p#top?lang=go&q=a+b%26c%3Dd'',
       Header = [], ReqBody = None\<rparr>
     \<in> set (fst (Get (example_env (Inr None)) ''http://h/p#top''
                   [Params_opt (Some example_params)]))
   \<and> CHR ''?'' \<notin> set ''http://h/p#top'' \<and> example_params \<noteq> []
   \<and> RawQuery ''http://h/p#top?lang=go&q=a+b%26c%3Dd'' = []
   \<and> ParseQuery (RawQuery ''http://h/p#top?lang=go&q=a+b%26c%3Dd'') = ([], None)"
proof -
  have q: "CHR ''?'' \<notin> set ''http://h/p#top''" by simp
  have 1: "Constructed \<lparr>Method = MethodGet, URL = ''http://h/p#top?lang=go&q=a+b%26c%3Dd'',
       Header = [], ReqBody = None\<rparr>
     \<in> set (fst (Get (example_env (Inr None)) ''http://h/p#top''
                   [Params_opt (Some example_params)]))"
    by (subst example_get_params [OF q]) simp
  have 2: "RawQuery ''http://h/p#top?lang=go&q=a+b%26c%3Dd'' = []" by code_simp
  have 3: "ParseQuery (RawQuery ''http://h/p#top?lang=go&q=a+b%26c%3Dd'') = ([], None)"
    by code_simp
  have 4: "example_params \<noteq> []" by (simp add: example_params_def)
  from 1 q 4 2 3 show ?thesis by (intro conjI)
qed

text \<open>
  Claim C9, amended. For every non-empty params mapping (one entry per key) and every
  target URL that contains neither \<^verbatim>\<open>?\<close> nor \<^verbatim>\<open>#\<close>, the dispatcher constructs its
  request, for every verb, with the URL made of the target URL, \<^verbatim>\<open>?\<close> and the encoded
  params, and the URL round-trips: decoding the query component of the constructed URL
  gives no error and yields exactly the key/value pairs of the mapping, each key with the
  one value the mapping gives it.
\<close>

theorem C9_query_round_trip:
  fixes env :: "('d, 'j) env"
  assumes "Params (parseOptions (defaults env) s) = Some ps" "ps \<noteq> []" "distinct (map fst ps)"
    and "CHR ''?'' \<notin> set u" "CHR ''#'' \<notin> set u"
  shows "request env m u s =
           request_send env (parseOptions (defaults env) s) m (u @ ''?'' @ Encode (add_all ps))
     \<and> (\<forall>req. Constructed req \<in> set (fst (call env v u s))
            \<longrightarrow> URL req = u @ ''?'' @ Encode (add_all ps))
     \<and> snd (ParseQuery (RawQuery (u @ ''?'' @ Encode (add_all ps)))) = None
     \<and> distinct (map fst (fst (ParseQuery (RawQuery (u @ ''?'' @ Encode (add_all ps))))))
     \<and> set (fst (ParseQuery (RawQuery (u @ ''?'' @ Encode (add_all ps)))))
         = (\<lambda>e. (fst e, [snd e])) ` set ps"
proof -
  have "CHR ''#'' \<notin> set (Encode (add_all ps))"
    unfolding Encode_add_all [OF assms(3)] by (rule joined_chars)
  with assms(4,5) have q: "RawQuery (u @ ''?'' @ Encode (add_all ps)) = Encode (add_all ps)"
    by (rule RawQuery_appended)
  have 1: "request env m u s =
           request_send env (parseOptions (defaults env) s) m (u @ ''?'' @ Encode (add_all ps))"
    using assms(1,2,4) by (rule request_with_params)
  have 2: "\<forall>req. Constructed req \<in> set (fst (call env v u s))
            \<longrightarrow> URL req = u @ ''?'' @ Encode (add_all ps)"
    using call_constructed [OF assms(1,2,4)] by blast
  have 3: "snd (ParseQuery (RawQuery (u @ ''?'' @ Encode (add_all ps)))) = None"
    by (simp only: q ParseQuery_Encode [OF assms(3)] snd_conv)
  have 4: "distinct (map fst (fst (ParseQuery (RawQuery (u @ ''?'' @ Encode (add_all ps))))))"
    by (simp only: q ParseQuery_Encode [OF assms(3)] fst_conv distinct_add_all)
  have 5: "set (fst (ParseQuery (RawQuery (u @ ''?'' @ Encode (add_all ps)))))
         = (\<lambda>e. (fst e, [snd e])) ` set ps"
    by (simp only: q ParseQuery_Encode [OF assms(3)] fst_conv decoded_pairs [OF assms(3)])
  from 1 2 3 4 5 show ?thesis by (intro conjI)
qed

text \<open>A \<^verbatim>\<open>GET\<close> with two parameters, one of them with a space, an ampersand and an equals
  sign in its value.\<close>

theorem C9_query_round_trip_witness:
  "Constructed \<lparr>Method = MethodGet, URL = ''http://h/p?lang=go&q=a+b%26c%3Dd'',
       Header = [], ReqBody = None\<rparr>
     \<in> set (fst (call (example_env (Inr None)) VGet ''http://h/p''
                   [Params_opt (Some example_params)]))
   \<and> ParseQuery (RawQuery ''http://h/p?lang=go&q=a+b%26c%3Dd'')
       = ([(''lang'', [''go'']), (''q'', [''a b&c=d''])], None)
   \<and> set [(''lang'', [''go'']), (''q'', [''a b&c=d''])]
       = (\<lambda>e. (fst e, [snd e])) ` set example_params"
proof -
  let ?env = "example_env (Inr None) :: (string, string) env"
  let ?s = "[Params_opt (Some example_params)] :: (string, string) Setter list"
  let ?req = "\<lparr>Method = MethodGet, URL = ''http://h/p?lang=go&q=a+b%26c%3Dd'',
       Header = [], ReqBody = None\<rparr>"
  have p: "Params (parseOptions (defaults ?env) ?s) = Some example_params"
    by (simp add: parseOptions_def)
  have n: "example_params \<noteq> []" by (simp add: example_params_def)
  have d: "distinct (map fst example_params)" by (simp add: example_params_def)
  have q: "CHR ''?'' \<notin> set ''http://h/p''" by simp
  have f: "CHR ''#'' \<notin> set ''http://h/p''" by simp
  have e: "Encode (add_all example_params) = ''lang=go&q=a+b%26c%3Dd''" by code_simp
  note inst = C9_query_round_trip [OF p n d q f, where m = MethodGet and v = VGet]
  have c: "Constructed ?req \<in> set (fst (call ?env VGet ''http://h/p'' ?s))"
    using example_get_params [OF q, of "Inr None"] by simp
  have pq: "ParseQuery (RawQuery ''http://h/p?lang=go&q=a+b%26c%3Dd'')
       = ([(''lang'', [''go'']), (''q'', [''a b&c=d''])], None)"
    by code_simp
  from inst have "set (fst (ParseQuery (RawQuery (''http://h/p'' @ ''?'' @ Encode (add_all example_params)))))
         = (\<lambda>e. (fst e, [snd e])) ` set example_params"
    by (elim conjE)
  then have "set (fst (ParseQuery (RawQuery ''http://h/p?lang=go&q=a+b%26c%3Dd'')))
         = (\<lambda>e. (fst e, [snd e])) ` set example_params"
    by (simp only: e append.simps)
  then have r: "set [(''lang'', [''go'']), (''q'', [''a b&c=d''])]
       = (\<lambda>e. (fst e, [snd e])) ` set example_params"
    by (simp only: pq fst_conv)
  from c pq r show ?thesis by (intro conjI)
qed

end
